theory Spec2Isabelle
  imports Complex_Main "HOL-Library.AList"
begin

section \<open>Isotope pattern storage: a shallow embedding of \<open>app/isotope_storage.py\<close>\<close>

text \<open>
  The development follows the class \<open>IsotopePatternStorage\<close>. What the Python code does
  to the world is made explicit: the directory tree below \<open>self._dir\<close> is a value, the
  \<open>functools.lru_cache\<close> of \<open>_load_dir\<close> is an association list ordered by recency,
  the global numpy random generator is a state that is passed along, and every
  exception is a value of type \<open>error\<close>. Leading underscores of Python names are dropped
  (\<open>_load\<close> is \<open>load\<close>, \<open>_path\<close> is \<open>path\<close>).
\<close>

subsection \<open>Exceptions\<close>

datatype error = KeyError | ValueError | TypeError | IndexError | AssertionError
  | ZeroDivisionError | OverflowError | OSError

subsection \<open>Python floats\<close>

text \<open>
  Floating point numbers are a type parameter \<open>'f\<close> with the operations the code uses.
  \<open>fdiv\<close> is true division (\<open>None\<close> where Python raises \<open>ZeroDivisionError\<close>),
  \<open>float_of_int\<close> the conversion of an integer operand (\<open>None\<close> where Python raises
  \<open>OverflowError\<close>), \<open>float_lit\<close> the float denoted by a decimal literal. Nothing is
  assumed about rounding, so every statement below holds for IEEE arithmetic as well
  as for the exact instance \<open>real_ops\<close>.
\<close>

record 'f float_ops =
  float_lit :: "real \<Rightarrow> 'f"
  float_of_int :: "int \<Rightarrow> 'f option"
  fdiv :: "'f \<Rightarrow> 'f \<Rightarrow> 'f option"
  fmul :: "'f \<Rightarrow> 'f \<Rightarrow> 'f"

definition real_ops :: "real float_ops" where
  "real_ops = \<lparr> float_lit = (\<lambda>x. x), float_of_int = (\<lambda>i. Some (of_int i)),
     fdiv = (\<lambda>x y. if y = 0 then None else Some (x / y)), fmul = (\<lambda>x y. x * y) \<rparr>"

definition ISOTOPIC_PEAK_N :: nat where
  "ISOTOPIC_PEAK_N = 4"

definition SIGMA_TO_FWHM :: "'f float_ops \<Rightarrow> 'f" where
  "SIGMA_TO_FWHM ops = float_lit ops 2.3548200450309493"

subsection \<open>Tables and the directory tree\<close>

text \<open>
  A partition file holds a table with the columns \<open>mf\<close>, \<open>mzs\<close>, \<open>intensities\<close> and
  \<open>adduct\<close>; a data frame of patterns is the list of its rows. A node of the tree is a
  parquet file or a directory, whose entries are listed in the order \<open>iterdir\<close> yields
  them. Paths are relative to \<open>self._dir\<close>.
\<close>

record 'f row =
  mf :: string
  mzs :: "'f list"
  intensities :: "'f list"
  adduct :: string

type_synonym 'f table = "'f row list"

type_synonym fpath = "string list"

datatype 'f node = File "'f table" | Dir "(string \<times> 'f node) list"

fun lookup :: "'f node \<Rightarrow> fpath \<Rightarrow> 'f node option" where
  "lookup n [] = Some n"
| "lookup (File t) (c # cs) = None"
| "lookup (Dir es) (c # cs) =
     (case map_of es c of None \<Rightarrow> None | Some n \<Rightarrow> lookup n cs)"

definition exists :: "'f node \<Rightarrow> fpath \<Rightarrow> bool" where
  "exists tree p = (lookup tree p \<noteq> None)"

definition is_dir :: "'f node \<Rightarrow> fpath \<Rightarrow> bool" where
  "is_dir tree p = (case lookup tree p of Some (Dir es) \<Rightarrow> True | _ \<Rightarrow> False)"

definition iterdir :: "'f node \<Rightarrow> fpath \<Rightarrow> error + (string \<times> 'f node) list" where
  "iterdir tree p = (case lookup tree p of Some (Dir es) \<Rightarrow> Inr es | _ \<Rightarrow> Inl OSError)"

text \<open>\<open>pathlib.Path.mkdir(exist_ok=True, parents=True)\<close>: fails on a path through a file.\<close>

fun mkdir_parents :: "'f node \<Rightarrow> fpath \<Rightarrow> error + 'f node" where
  "mkdir_parents (File t) p = Inl OSError"
| "mkdir_parents (Dir es) [] = Inr (Dir es)"
| "mkdir_parents (Dir es) (c # cs) =
     (case map_of es c of
        None \<Rightarrow> (case mkdir_parents (Dir []) cs of
                   Inl e \<Rightarrow> Inl e
                 | Inr n \<Rightarrow> Inr (Dir (es @ [(c, n)])))
      | Some n \<Rightarrow> (case mkdir_parents n cs of
                   Inl e \<Rightarrow> Inl e
                 | Inr n' \<Rightarrow> Inr (Dir (AList.update c n' es))))"

text \<open>
  \<open>pyarrow.parquet.read_table\<close> reads a file, or every file below a directory as one
  data set. \<open>pyarrow.parquet.write_table\<close> creates or replaces a file in an existing
  directory and fails where the target is a directory.
\<close>

fun read_table :: "'f node \<Rightarrow> 'f table" where
  "read_table (File t) = t"
| "read_table (Dir es) = concat (map (\<lambda>e. read_table (snd e)) es)"

fun write_table :: "'f node \<Rightarrow> fpath \<Rightarrow> 'f table \<Rightarrow> error + 'f node" where
  "write_table n [] t = Inl OSError"
| "write_table (File u) (c # cs) t = Inl OSError"
| "write_table (Dir es) [c] t =
     (case map_of es c of
        Some (Dir ds) \<Rightarrow> Inl OSError
      | _ \<Rightarrow> Inr (Dir (AList.update c (File t) es)))"
| "write_table (Dir es) (c # c' # cs) t =
     (case map_of es c of
        None \<Rightarrow> Inl OSError
      | Some n \<Rightarrow> (case write_table n (c' # cs) t of
                   Inl e \<Rightarrow> Inl e
                 | Inr n' \<Rightarrow> Inr (Dir (AList.update c n' es))))"

subsection \<open>Strings: formatting and parsing of directory names\<close>

definition digit_char :: "nat \<Rightarrow> char" where
  "digit_char d = ''0123456789'' ! d"

fun string_of_nat :: "nat \<Rightarrow> string" where
  "string_of_nat n = (if n < 10 then [digit_char n]
     else string_of_nat (n div 10) @ [digit_char (n mod 10)])"

declare string_of_nat.simps [simp del]

definition str_int :: "int \<Rightarrow> string" where
  "str_int i = (if i < 0 then CHR ''-'' # string_of_nat (nat (- i)) else string_of_nat (nat i))"

text \<open>\<open>s.split(sep)\<close> for a separator of one character.\<close>

fun split_on :: "char \<Rightarrow> string \<Rightarrow> string list" where
  "split_on sep [] = [[]]"
| "split_on sep (c # cs) =
     (if c = sep then [] # split_on sep cs
      else (case split_on sep cs of [] \<Rightarrow> [[c]] | w # ws \<Rightarrow> (c # w) # ws))"

definition py_nth :: "'a list \<Rightarrow> nat \<Rightarrow> error + 'a" where
  "py_nth xs i = (if i < length xs then Inr (xs ! i) else Inl IndexError)"

definition digit_val :: "char \<Rightarrow> nat option" where
  "digit_val c = (if c \<in> set ''0123456789'' then Some (of_char c - 48) else None)"

fun digits_val :: "nat \<Rightarrow> string \<Rightarrow> nat option" where
  "digits_val acc [] = Some acc"
| "digits_val acc (c # cs) =
     (case digit_val c of None \<Rightarrow> None | Some d \<Rightarrow> digits_val (10 * acc + d) cs)"

text \<open>
  \<open>int(s)\<close> on an optional sign followed by decimal digits. (Python also accepts
  surrounding white space and underscores between digits; the names written by this
  class have neither.)
\<close>

definition py_int :: "string \<Rightarrow> error + int" where
  "py_int s =
     (case s of
        [] \<Rightarrow> Inl ValueError
      | c # cs \<Rightarrow>
          if c = CHR ''-'' \<or> c = CHR ''+'' then
            (if cs = [] then Inl ValueError
             else (case digits_val 0 cs of
                     None \<Rightarrow> Inl ValueError
                   | Some n \<Rightarrow> Inr (if c = CHR ''-'' then - int n else int n)))
          else (case digits_val 0 s of None \<Rightarrow> Inl ValueError | Some n \<Rightarrow> Inr (int n)))"

subsection \<open>The storage object\<close>

record InstrumentSettings =
  pts_per_mz :: int

text \<open>
  \<open>fs\<close> is the tree below \<open>self._dir\<close>, \<open>mf_cache\<close> the dictionary \<open>self._mf_cache\<close>
  (each value a data frame with the single column \<open>mf\<close>), \<open>lru\<close> the memo of
  \<open>_load_dir\<close> with the most recently used entry first, and \<open>cache_size\<close> the constant
  \<open>ISOTOPE_CACHE_SIZE\<close> of \<open>app.config\<close>, which is not part of the sources at hand.
\<close>

record 'f storage =
  fs :: "'f node"
  mf_cache :: "int \<rightharpoonup> string list"
  lru :: "(fpath \<times> 'f table) list"
  cache_size :: nat

text \<open>
  A Python set of formulas is given by a list of its elements; \<open>list(s)\<close> enumerates
  them without repetition, and \<open>a |= b\<close> adds the elements of \<open>b\<close> that \<open>a\<close> lacks.
\<close>

definition list_of_set :: "'a list \<Rightarrow> 'a list" where
  "list_of_set s = remdups s"

definition set_union :: "'a list \<Rightarrow> 'a list \<Rightarrow> 'a list" where
  "set_union a b = a @ filter (\<lambda>x. x \<notin> set a) (remdups b)"

fun init_loop :: "(int \<times> string list) list \<Rightarrow> string list \<times> (int \<rightharpoonup> string list)
    \<Rightarrow> string list \<times> (int \<rightharpoonup> string list)" where
  "init_loop [] acc = acc"
| "init_loop ((db_id, mfs) # rest) (all_mfs, cache) =
     init_loop rest (set_union all_mfs mfs, cache(db_id \<mapsto> list_of_set mfs))"

text \<open>
  \<open>IsotopePatternStorage.__init__\<close>: \<open>mol_formulas\<close> is the dictionary from database ids
  to sets of formulas, as the list of its items.
\<close>

definition init :: "(int \<times> string list) list \<Rightarrow> 'f node \<Rightarrow> nat \<Rightarrow> error + 'f storage" where
  "init mol_formulas directory maxsize =
     (case directory of
        File t \<Rightarrow> Inl OSError
      | Dir es \<Rightarrow>
          (case init_loop mol_formulas ([], Map.empty) of
             (all_mfs, cache) \<Rightarrow>
               Inr \<lparr> fs = directory, mf_cache = cache(-1 \<mapsto> list_of_set all_mfs),
                     lru = [], cache_size = maxsize \<rparr>))"

definition dir_path :: "InstrumentSettings \<Rightarrow> int \<Rightarrow> fpath" where
  "dir_path instr charge =
     [''pts_'' @ str_int (pts_per_mz instr), ''charge_'' @ str_int charge]"

definition path :: "InstrumentSettings \<Rightarrow> string \<Rightarrow> int \<Rightarrow> fpath" where
  "path instr adduct' charge =
     dir_path instr charge @ [''adduct_'' @ adduct' @ ''.parquet'']"

definition load_single_file :: "'f node \<Rightarrow> fpath \<Rightarrow> error + 'f table" where
  "load_single_file tree filename =
     (case lookup tree filename of None \<Rightarrow> Inl OSError | Some n \<Rightarrow> Inr (read_table n))"

fun sequence_err :: "(error + 'a) list \<Rightarrow> error + 'a list" where
  "sequence_err [] = Inr []"
| "sequence_err (Inl e # rs) = Inl e"
| "sequence_err (Inr x # rs) = (case sequence_err rs of Inl e \<Rightarrow> Inl e | Inr xs \<Rightarrow> Inr (x # xs))"

text \<open>
  \<open>_load_dir\<close> under \<open>functools.lru_cache(maxsize=ISOTOPE_CACHE_SIZE)\<close>: a hit returns the
  stored frame and makes the entry the most recent one; a miss runs the body, and a
  result (not an exception) is stored, the least recently used entry leaving when the
  memo is full. \<open>pd.concat\<close> of no frame at all raises \<open>ValueError\<close>.
\<close>

definition load_dir :: "'f storage \<Rightarrow> fpath \<Rightarrow> error + ('f table \<times> 'f storage)" where
  "load_dir st directory =
     (case map_of (lru st) directory of
        Some df \<Rightarrow> Inr (df, st\<lparr>lru := (directory, df) # AList.delete directory (lru st)\<rparr>)
      | None \<Rightarrow>
          (case iterdir (fs st) directory of
             Inl e \<Rightarrow> Inl e
           | Inr es \<Rightarrow>
               (case sequence_err
                       (map (\<lambda>e. load_single_file (fs st) (directory @ [fst e])) es) of
                  Inl e \<Rightarrow> Inl e
                | Inr dfs \<Rightarrow>
                    if dfs = [] then Inl ValueError
                    else Inr (concat dfs,
                      st\<lparr>lru := take (cache_size st) ((directory, concat dfs) # lru st)\<rparr>))))"

definition load :: "'f storage \<Rightarrow> fpath \<Rightarrow> error + ('f table \<times> 'f storage)" where
  "load st filename =
     (if is_dir (fs st) filename then load_dir st filename
      else (case load_single_file (fs st) filename of
              Inl e \<Rightarrow> Inl e
            | Inr df \<Rightarrow> Inr (df, st)))"

definition molecular_formulas :: "'f storage \<Rightarrow> int option \<Rightarrow> error + string list" where
  "molecular_formulas st db_id =
     (case mf_cache st (case db_id of None \<Rightarrow> - 1 | Some d \<Rightarrow> d) of
        None \<Rightarrow> Inl KeyError
      | Some mfs \<Rightarrow> Inr mfs)"

subsection \<open>Queries\<close>

text \<open>
  \<open>unique\<close> keeps the first occurrence of every value, in order of appearance.
  \<open>merge key df keys\<close> is \<open>pd.merge\<close> of the frame \<open>df\<close> with a frame of one column on
  that column: an inner join, whose rows come grouped by the key (in order of first
  appearance in \<open>df\<close>), a row repeated for every occurrence of its key on the right.
\<close>

definition unique :: "'a list \<Rightarrow> 'a list" where
  "unique xs = rev (remdups (rev xs))"

definition merge :: "('r \<Rightarrow> 'k) \<Rightarrow> 'r list \<Rightarrow> 'k list \<Rightarrow> 'r list" where
  "merge key df keys =
     concat (map (\<lambda>k. concat (map (\<lambda>r. replicate (count_list keys k) r)
                                    (filter (\<lambda>r. key r = k) df)))
                 (unique (map key df)))"

text \<open>
  \<open>load_patterns\<close>: \<open>adducts\<close> is a list (\<open>None\<close> and \<open>[]\<close> are both false for
  \<open>if adducts\<close>); \<open>db_id\<close> is \<open>None\<close> or an integer, false when \<open>None\<close> or \<open>0\<close>.
\<close>

definition load_patterns ::
  "'f storage \<Rightarrow> InstrumentSettings \<Rightarrow> int \<Rightarrow> int option \<Rightarrow> string list
     \<Rightarrow> error + ('f table \<times> 'f storage)" where
  "load_patterns st instr charge db_id adducts =
     (case load st (dir_path instr charge) of
        Inl e \<Rightarrow> Inl e
      | Inr (df, st') \<Rightarrow>
          (let df' = (if adducts \<noteq> [] then merge adduct df adducts else df) in
           if db_id = None \<or> db_id = Some 0 then Inr (df', st')
           else (case molecular_formulas st' db_id of
                   Inl e \<Rightarrow> Inl e
                 | Inr mol_formulas \<Rightarrow> Inr (merge mf df' mol_formulas, st'))))"

subsection \<open>The configurations on disk\<close>

text \<open>
  \<open>_configurations\<close> collects one dictionary per partition file and hands the list to
  \<open>pd.DataFrame.from_records\<close>: the columns of the frame are the keys that occur in the
  records, so no record means no column. Selecting a column that the frame does not
  have raises \<open>KeyError\<close>; a value that a record lacks is \<open>NaN\<close>.
\<close>

datatype cell = IntCell int | StrCell string | NaN

type_synonym record_dict = "(string \<times> cell) list"

record frame =
  columns :: "string list"
  records :: "record_dict list"

definition from_records :: "record_dict list \<Rightarrow> frame" where
  "from_records rs = \<lparr> columns = unique (concat (map (map fst) rs)), records = rs \<rparr>"

definition get_column :: "frame \<Rightarrow> string \<Rightarrow> error + cell list" where
  "get_column df c =
     (if c \<in> set (columns df)
      then Inr (map (\<lambda>r. case map_of r c of None \<Rightarrow> NaN | Some v \<Rightarrow> v) (records df))
      else Inl KeyError)"

definition get_columns :: "frame \<Rightarrow> string list \<Rightarrow> error + frame" where
  "get_columns df cs =
     (if set cs \<subseteq> set (columns df)
      then Inr \<lparr> columns = cs,
                 records = map (\<lambda>r. map (\<lambda>c. (c, case map_of r c of None \<Rightarrow> NaN | Some v \<Rightarrow> v)) cs)
                               (records df) \<rparr>
      else Inl KeyError)"

fun adduct_loop :: "int \<Rightarrow> int \<Rightarrow> (string \<times> 'f node) list \<Rightarrow> error + record_dict list" where
  "adduct_loop pts charge [] = Inr []"
| "adduct_loop pts charge (adduct_dir # rest) =
     (case py_nth (split_on CHR ''_'' (fst adduct_dir)) 1 of
        Inl e \<Rightarrow> Inl e
      | Inr s \<Rightarrow>
          (case py_nth (split_on CHR ''.'' s) 0 of
             Inl e \<Rightarrow> Inl e
           | Inr adduct' \<Rightarrow>
               (case adduct_loop pts charge rest of
                  Inl e \<Rightarrow> Inl e
                | Inr result \<Rightarrow>
                    Inr ([(''pts_per_mz'', IntCell pts), (''charge'', IntCell charge),
                          (''adduct'', StrCell adduct')] # result))))"

fun charge_loop :: "int \<Rightarrow> (string \<times> 'f node) list \<Rightarrow> error + record_dict list" where
  "charge_loop pts [] = Inr []"
| "charge_loop pts (charge_dir # rest) =
     (case py_nth (split_on CHR ''_'' (fst charge_dir)) 1 of
        Inl e \<Rightarrow> Inl e
      | Inr s \<Rightarrow>
          (case py_int s of
             Inl e \<Rightarrow> Inl e
           | Inr charge \<Rightarrow>
               (case iterdir (snd charge_dir) [] of
                  Inl e \<Rightarrow> Inl e
                | Inr adduct_dirs \<Rightarrow>
                    (case adduct_loop pts charge adduct_dirs of
                       Inl e \<Rightarrow> Inl e
                     | Inr result \<Rightarrow>
                         (case charge_loop pts rest of
                            Inl e \<Rightarrow> Inl e
                          | Inr result' \<Rightarrow> Inr (result @ result'))))))"

fun instr_loop :: "(string \<times> 'f node) list \<Rightarrow> error + record_dict list" where
  "instr_loop [] = Inr []"
| "instr_loop (instr_dir # rest) =
     (case py_nth (split_on CHR ''_'' (fst instr_dir)) 1 of
        Inl e \<Rightarrow> Inl e
      | Inr s \<Rightarrow>
          (case py_int s of
             Inl e \<Rightarrow> Inl e
           | Inr pts \<Rightarrow>
               (case iterdir (snd instr_dir) [] of
                  Inl e \<Rightarrow> Inl e
                | Inr charge_dirs \<Rightarrow>
                    (case charge_loop pts charge_dirs of
                       Inl e \<Rightarrow> Inl e
                     | Inr result \<Rightarrow>
                         (case instr_loop rest of
                            Inl e \<Rightarrow> Inl e
                          | Inr result' \<Rightarrow> Inr (result @ result'))))))"

definition configurations :: "'f storage \<Rightarrow> error + frame" where
  "configurations st =
     (case iterdir (fs st) [] of
        Inl e \<Rightarrow> Inl e
      | Inr instr_dirs \<Rightarrow>
          (case instr_loop instr_dirs of
             Inl e \<Rightarrow> Inl e
           | Inr result \<Rightarrow> Inr (from_records result)))"

text \<open>The sets the two functions return are given as lists without repetition.\<close>

definition adduct_charge_pairs :: "'f storage \<Rightarrow> error + (cell \<times> cell) list" where
  "adduct_charge_pairs st =
     (case configurations st of
        Inl e \<Rightarrow> Inl e
      | Inr df \<Rightarrow>
          (case get_columns df [''adduct'', ''charge''] of
             Inl e \<Rightarrow> Inl e
           | Inr sub \<Rightarrow> Inr (list_of_set (map (\<lambda>x. (snd (x ! 0), snd (x ! 1))) (records sub)))))"

definition instrument_settings :: "'f storage \<Rightarrow> error + InstrumentSettings list" where
  "instrument_settings st =
     (case configurations st of
        Inl e \<Rightarrow> Inl e
      | Inr df \<Rightarrow>
          (case get_column df ''pts_per_mz'' of
             Inl e \<Rightarrow> Inl e
           | Inr col \<Rightarrow> Inr [\<lparr> pts_per_mz = x \<rparr>. IntCell x \<leftarrow> unique col]))"

subsection \<open>Generation\<close>

text \<open>
  The physics engine \<open>cpyMSpec\<close> is a parameter: \<open>'p\<close> is the type of its pattern
  objects, \<open>isotopePattern\<close> returns \<open>None\<close> where the call raises (the code catches
  every exception of this call and skips the formula).
\<close>

datatype 'f instrument_model = InstrumentModel string 'f

record ('p, 'f) engine =
  isotopePattern :: "string \<Rightarrow> 'p option"
  masses :: "'p \<Rightarrow> 'f list"
  pattern_intensities :: "'p \<Rightarrow> 'f list"
  addCharge :: "int \<Rightarrow> 'p \<Rightarrow> 'p"
  centroids :: "'f instrument_model \<Rightarrow> 'p \<Rightarrow> 'p"
  trimmed :: "nat \<Rightarrow> 'p \<Rightarrow> 'p"
  sortByMass :: "'p \<Rightarrow> 'p"

text \<open>
  The loop over \<open>new_mol_formulas\<close> (lines 195 to 213). It yields the rows of the new
  frame, or the exception that ends the loop: the division by \<open>pts_per_mz\<close> and the
  read of \<open>p.masses[0]\<close> are outside the \<open>try\<close>.
\<close>

fun compute_patterns ::
  "'f float_ops \<Rightarrow> ('p, 'f) engine \<Rightarrow> InstrumentSettings \<Rightarrow> string \<Rightarrow> int \<Rightarrow> string list
     \<Rightarrow> error + 'f table" where
  "compute_patterns ops ms instr adduct' charge [] = Inr []"
| "compute_patterns ops ms instr adduct' charge (mf' # rest) =
     (case isotopePattern ms (mf' @ adduct') of
        None \<Rightarrow> compute_patterns ops ms instr adduct' charge rest
      | Some p \<Rightarrow>
          (case float_of_int ops (pts_per_mz instr) of
             None \<Rightarrow> Inl OverflowError
           | Some pts \<Rightarrow>
               (case fdiv ops (float_lit ops 5.0) pts of
                  None \<Rightarrow> Inl ZeroDivisionError
                | Some sigma \<Rightarrow>
                    (let fwhm = fmul ops sigma (SIGMA_TO_FWHM ops) in
                     case masses ms p of
                       [] \<Rightarrow> Inl IndexError
                     | m0 # ms' \<Rightarrow>
                         (case fdiv ops m0 fwhm of
                            None \<Rightarrow> Inl ZeroDivisionError
                          | Some resolving_power \<Rightarrow>
                              (let instrument_model = InstrumentModel ''tof'' resolving_power;
                                   p1 = addCharge ms charge p;
                                   p2 = trimmed ms ISOTOPIC_PEAK_N (centroids ms instrument_model p1);
                                   p3 = sortByMass ms p2
                               in case compute_patterns ops ms instr adduct' charge rest of
                                    Inl e \<Rightarrow> Inl e
                                  | Inr df \<Rightarrow>
                                      Inr (\<lparr> mf = mf', mzs = masses ms p3,
                                              intensities = pattern_intensities ms p3,
                                              adduct = adduct' \<rparr> # df)))))))"

text \<open>
  Line 186 subtracts the set \<open>mf_finished\<close> from the value of \<open>_molecular_formulas\<close>,
  which is a data frame (lines 57, 58 and 94), not a set. For pandas this is
  arithmetic with a list-like operand, which it first turns into a Series over the
  columns of the frame: an operand with another number of elements than the frame has
  columns (one, \<open>mf\<close>) is a \<open>ValueError\<close>, and a set with one element is refused by the
  Series constructor as unordered, a \<open>TypeError\<close>. The subtraction has no result in any
  case. The arguments are the column \<open>mf\<close> of the frame and the elements of the set.
\<close>

definition frame_sub_set :: "string list \<Rightarrow> string list \<Rightarrow> error + string list" where
  "frame_sub_set mol_formulas mf_finished =
     (if length mf_finished = 1 then Inl TypeError else Inl ValueError)"

text \<open>
  \<open>generate_patterns\<close> returns nothing; the result is the state it leaves behind and
  the exception it raises, \<open>None\<close> for a call that returns. What a call has done to the
  directory tree or to the memo before it raises stays done.
\<close>

definition generate_patterns ::
  "'f float_ops \<Rightarrow> ('p, 'f) engine \<Rightarrow> 'f storage \<Rightarrow> InstrumentSettings \<Rightarrow> string \<Rightarrow> int
     \<Rightarrow> int option \<Rightarrow> 'f storage \<times> error option" where
  "generate_patterns ops ms st instr adduct' charge db_id =
     (let dump_path = path instr adduct' charge in
      case (if exists (fs st) dump_path
            then (case load st dump_path of
                    Inl e \<Rightarrow> Inl e
                  | Inr (existing_df, st') \<Rightarrow>
                      Inr (Some existing_df, list_of_set (map mf existing_df), st'))
            else (case mkdir_parents (fs st) (butlast dump_path) of
                    Inl e \<Rightarrow> Inl e
                  | Inr tree \<Rightarrow> Inr (None, [], st\<lparr>fs := tree\<rparr>))) of
        Inl e \<Rightarrow> (st, Some e)
      | Inr (existing_df, mf_finished, st1) \<Rightarrow>
          (case molecular_formulas st1 db_id of
             Inl e \<Rightarrow> (st1, Some e)
           | Inr mol_formulas \<Rightarrow>
               (case frame_sub_set mol_formulas mf_finished of
                  Inl e \<Rightarrow> (st1, Some e)
                | Inr new_mol_formulas \<Rightarrow>
                    if new_mol_formulas = [] then (st1, None)
                    else
                      (case compute_patterns ops ms instr adduct' charge new_mol_formulas of
                         Inl e \<Rightarrow> (st1, Some e)
                       | Inr df \<Rightarrow>
                           (let df' = (case existing_df of
                                         None \<Rightarrow> df
                                       | Some existing \<Rightarrow>
                                           if existing \<noteq> [] then existing @ df else df)
                            in case write_table (fs st1) dump_path df' of
                                 Inl e \<Rightarrow> (st1, Some e)
                               | Inr tree \<Rightarrow> (st1\<lparr>fs := tree\<rparr>, None))))))"

subsection \<open>The FDR subsample\<close>

text \<open>
  The global generator of \<open>numpy.random\<close> is a state of type \<open>'g\<close>: \<open>seed_state\<close> is the
  state after \<open>np.random.seed\<close>, which accepts the seeds from \<open>0\<close> to \<open>2^32 - 1\<close>, and
  \<open>next_float\<close> draws one number. \<open>argsort\<close> lists the indices by increasing value,
  equal values by position (numpy promises no order among equal values; the statements
  below use only that the result lists every index once). \<open>xs[:k]\<close> drops the last
  \<open>- k\<close> elements when \<open>k\<close> is negative.
\<close>

record ('g, 'f) rng =
  seed_state :: "nat \<Rightarrow> 'g"
  next_float :: "'g \<Rightarrow> 'f \<times> 'g"

definition np_random_seed :: "('g, 'f) rng \<Rightarrow> int \<Rightarrow> error + 'g" where
  "np_random_seed gen s =
     (if 0 \<le> s \<and> s < 2 ^ 32 then Inr (seed_state gen (nat s)) else Inl ValueError)"

fun rand :: "('g, 'f) rng \<Rightarrow> nat \<Rightarrow> 'g \<Rightarrow> 'f list \<times> 'g" where
  "rand gen 0 g = ([], g)"
| "rand gen (Suc n) g =
     (case next_float gen g of
        (x, g') \<Rightarrow> (case rand gen n g' of (xs, g'') \<Rightarrow> (x # xs, g'')))"

definition argsort :: "('f :: linorder) list \<Rightarrow> nat list" where
  "argsort xs = sort_key (\<lambda>i. xs ! i) [0..<length xs]"

definition py_take :: "int \<Rightarrow> 'a list \<Rightarrow> 'a list" where
  "py_take k xs = (if 0 \<le> k then take (nat k) xs else take (length xs - nat (- k)) xs)"

text \<open>
  A row of the frame that \<open>load_fdr_subsample\<close> builds: the pattern columns, the column
  \<open>is_target\<close>, and the boolean columns named after target adducts, in the order in
  which they were added. (The model keeps them apart from the pattern columns: an
  adduct is not expected to be called \<open>mf\<close> or \<open>is_target\<close>.)
\<close>

record 'f fdr_row = "'f row" +
  is_target :: bool
  selected :: "(string \<times> bool) list"

definition with_is_target :: "string list \<Rightarrow> 'f row \<Rightarrow> 'f fdr_row" where
  "with_is_target target_adducts r =
     \<lparr> mf = mf r, mzs = mzs r, intensities = intensities r, adduct = adduct r,
       is_target = (adduct r \<in> set target_adducts), selected = [] \<rparr>"

definition groupby_is_target :: "'f fdr_row list \<Rightarrow> 'f fdr_row list list" where
  "groupby_is_target df =
     filter (\<lambda>g. g \<noteq> []) [filter (\<lambda>r. \<not> is_target r) df, filter (\<lambda>r. is_target r) df]"

definition set_column :: "string \<Rightarrow> bool list \<Rightarrow> 'f fdr_row list \<Rightarrow> 'f fdr_row list" where
  "set_column name vals df =
     map (\<lambda>(r, v). r\<lparr>selected := AList.update name v (selected r)\<rparr>) (zip df vals)"

definition mark :: "nat list \<Rightarrow> nat \<Rightarrow> bool list \<Rightarrow> bool list" where
  "mark sub_selection base selection =
     fold (\<lambda>j s. s[base + j := True]) sub_selection selection"

text \<open>The loop \<open>for i in range(n_mf)\<close> of \<open>_select_decoys\<close>, over the remaining indices.\<close>

fun select_loop ::
  "('g, 'f :: linorder) rng \<Rightarrow> nat \<Rightarrow> int \<Rightarrow> nat list \<Rightarrow> bool list \<Rightarrow> 'g \<Rightarrow> bool list \<times> 'g" where
  "select_loop gen n_decoy_adducts decoys_per_target [] selection g = (selection, g)"
| "select_loop gen n_decoy_adducts decoys_per_target (i # rest) selection g =
     (case rand gen n_decoy_adducts g of
        (xs, g') \<Rightarrow>
          select_loop gen n_decoy_adducts decoys_per_target rest
            (mark (py_take decoys_per_target (argsort xs)) (i * n_decoy_adducts) selection) g')"

definition select_decoys ::
  "('g, 'f :: linorder) rng \<Rightarrow> nat \<Rightarrow> nat \<Rightarrow> int \<Rightarrow> nat \<Rightarrow> 'g \<Rightarrow> bool list \<times> 'g" where
  "select_decoys gen n_decoy_adducts n_mf decoys_per_target len g =
     select_loop gen n_decoy_adducts decoys_per_target [0..<n_mf] (replicate len False) g"

text \<open>The loop \<open>for adduct in target_adducts\<close> (lines 161 to 163).\<close>

fun target_loop ::
  "('g, 'f :: linorder) rng \<Rightarrow> nat \<Rightarrow> nat \<Rightarrow> int \<Rightarrow> string list
     \<Rightarrow> 'f fdr_row list \<Rightarrow> 'f fdr_row list \<Rightarrow> 'g
     \<Rightarrow> ('f fdr_row list \<times> 'f fdr_row list) \<times> 'g" where
  "target_loop gen n_decoy_adducts n_mf decoys_per_target [] target_df decoy_df g =
     ((target_df, decoy_df), g)"
| "target_loop gen n_decoy_adducts n_mf decoys_per_target (adduct' # rest) target_df decoy_df g =
     (case select_decoys gen n_decoy_adducts n_mf decoys_per_target (length decoy_df) g of
        (selection, g') \<Rightarrow>
          target_loop gen n_decoy_adducts n_mf decoys_per_target rest
            (set_column adduct' (replicate (length target_df) False) target_df)
            (set_column adduct' selection decoy_df) g')"

definition flag :: "string \<Rightarrow> 'f fdr_row \<Rightarrow> bool" where
  "flag name r = (map_of (selected r) name = Some True)"

text \<open>
  Lines 143 to 167 of \<open>load_fdr_subsample\<close>, on the frame that \<open>load_patterns\<close> returned
  and the state of the generator.
\<close>

definition fdr_subsample ::
  "('g, 'f :: linorder) rng \<Rightarrow> 'f table \<Rightarrow> string list \<Rightarrow> int \<Rightarrow> 'g
     \<Rightarrow> error + ('f fdr_row list \<times> 'g)" where
  "fdr_subsample gen df target_adducts decoys_per_target g =
     (case groupby_is_target (map (with_is_target target_adducts) df) of
        [decoy_df, target_df] \<Rightarrow>
          (let n_decoy_adducts = length (unique (map adduct decoy_df));
               n_mf = length decoy_df div n_decoy_adducts
           in if \<not> decoys_per_target \<le> int n_decoy_adducts then Inl AssertionError
              else
                (case target_loop gen n_decoy_adducts n_mf decoys_per_target target_adducts
                        target_df decoy_df g of
                   ((target_df', decoy_df'), g') \<Rightarrow>
                     Inr (target_df'
                            @ filter (\<lambda>r. list_ex (\<lambda>a. flag a r) target_adducts) decoy_df',
                          g')))
      | _ \<Rightarrow> Inl ValueError)"

definition load_fdr_subsample ::
  "('g, 'f :: linorder) rng \<Rightarrow> 'f storage \<Rightarrow> 'g \<Rightarrow> InstrumentSettings \<Rightarrow> int \<Rightarrow> int option
     \<Rightarrow> string list \<Rightarrow> string list \<Rightarrow> int \<Rightarrow> int option
     \<Rightarrow> error + ('f fdr_row list \<times> 'f storage \<times> 'g)" where
  "load_fdr_subsample gen st g instr charge db_id target_adducts decoy_adducts
       decoys_per_target random_seed =
     (case (case random_seed of
              None \<Rightarrow> Inr g
            | Some s \<Rightarrow> if s \<noteq> 0 then np_random_seed gen s else Inr g) of
        Inl e \<Rightarrow> Inl e
      | Inr g1 \<Rightarrow>
          (case load_patterns st instr charge db_id
                  (target_adducts @ decoy_adducts) of
             Inl e \<Rightarrow> Inl e
           | Inr (df, st') \<Rightarrow>
               (case fdr_subsample gen df target_adducts decoys_per_target g1 of
                  Inl e \<Rightarrow> Inl e
                | Inr (out, g2) \<Rightarrow> Inr (out, st', g2))))"

subsection \<open>Notions used in the statements\<close>

text \<open>
  The resolving power as the specification words it: \<open>sigma = 5.0 / pointsPerMz\<close>,
  \<open>fwhm = sigma * 2.3548200450309493\<close>, \<open>resolvingPower = firstIsotopePeakMass / fwhm\<close>.
\<close>

definition resolving_power :: "'f float_ops \<Rightarrow> int \<Rightarrow> 'f \<Rightarrow> 'f option" where
  "resolving_power ops pts m0 =
     (case float_of_int ops pts of
        None \<Rightarrow> None
      | Some pts' \<Rightarrow>
          (case fdiv ops (float_lit ops 5.0) pts' of
             None \<Rightarrow> None
           | Some sigma \<Rightarrow> fdiv ops m0 (fmul ops sigma (float_lit ops 2.3548200450309493))))"

text \<open>
  The formula groups of the decoy rows are the consecutive blocks of \<open>n_decoy_adducts\<close>
  rows that \<open>_select_decoys\<close> walks through. The rows form per-formula groups when the
  blocks cover them, every block holds the rows of one formula with one row per decoy
  adduct, and different blocks belong to different formulas.
\<close>

definition formula_groups :: "('f, 'z) row_scheme list \<Rightarrow> ('f, 'z) row_scheme list list" where
  "formula_groups decoy_df =
     (let n = length (unique (map adduct decoy_df))
      in map (\<lambda>i. take n (drop (i * n) decoy_df)) [0..<length decoy_df div n])"

definition per_formula_groups :: "('f, 'z) row_scheme list \<Rightarrow> bool" where
  "per_formula_groups decoy_df \<longleftrightarrow>
     (let n = length (unique (map adduct decoy_df)); groups = formula_groups decoy_df
      in length decoy_df = n * length groups
         \<and> (\<forall>g \<in> set groups. (\<forall>r \<in> set g. mf r = mf (hd g)) \<and> distinct (map adduct g))
         \<and> distinct (map (\<lambda>g. mf (hd g)) groups))"

subsection \<open>A small store\<close>

text \<open>
  One instrument setting and one charge, with the partitions of the target adduct
  \<open>+H\<close> and of the decoy adducts \<open>+He\<close> and \<open>+Li\<close>, each holding the formula \<open>H2O\<close>.
  The engine knows water only; the generator hands out the numbers of a list.
\<close>

definition example_row :: "string \<Rightarrow> string \<Rightarrow> real row" where
  "example_row f a = \<lparr> mf = f, mzs = [19], intensities = [100], adduct = a \<rparr>"

definition example_df :: "real table" where
  "example_df = [example_row ''H2O'' ''+H'', example_row ''H2O'' ''+He'',
     example_row ''H2O'' ''+Li'']"

definition example_tree :: "real node" where
  "example_tree = Dir [(''pts_1'', Dir [(''charge_1'',
     Dir [(''adduct_+H.parquet'', File [example_row ''H2O'' ''+H'']),
          (''adduct_+He.parquet'', File [example_row ''H2O'' ''+He'']),
          (''adduct_+Li.parquet'', File [example_row ''H2O'' ''+Li''])])])]"

definition example_storage :: "real storage" where
  "example_storage = \<lparr> fs = example_tree,
     mf_cache = [1 \<mapsto> [''H2O''], - 1 \<mapsto> [''H2O'', ''Xx'']], lru = [], cache_size = 2 \<rparr>"

definition example_cached :: "real storage" where
  "example_cached = example_storage\<lparr>lru := [([''pts_1'', ''charge_1''], example_df)]\<rparr>"

definition example_instr :: InstrumentSettings where
  "example_instr = \<lparr> pts_per_mz = 1 \<rparr>"

definition example_rng :: "(real list, real) rng" where
  "example_rng = \<lparr> seed_state = (\<lambda>s. [real s, 0, 1]),
     next_float = (\<lambda>g. case g of [] \<Rightarrow> (0, []) | x # xs \<Rightarrow> (x, xs)) \<rparr>"

definition example_engine :: "(real list \<times> real list, real) engine" where
  "example_engine = \<lparr>
     isotopePattern = (\<lambda>s. if take 3 s = ''H2O'' then Some ([19, 20], [100, 1]) else None),
     masses = fst, pattern_intensities = snd, addCharge = (\<lambda>c p. p),
     centroids = (\<lambda>m p. p), trimmed = (\<lambda>n p. (take n (fst p), take n (snd p))),
     sortByMass = (\<lambda>p. p) \<rparr>"


text \<open>The two subsamples that the store admits with one decoy per target.\<close>

definition example_out :: "string \<Rightarrow> real fdr_row list" where
  "example_out decoy =
     [\<lparr> mf = ''H2O'', mzs = [19], intensities = [100], adduct = ''+H'',
         is_target = True, selected = [(''+H'', False)] \<rparr>,
      \<lparr> mf = ''H2O'', mzs = [19], intensities = [100], adduct = decoy,
         is_target = False, selected = [(''+H'', True)] \<rparr>]"

section \<open>Properties\<close>

subsection \<open>The all-databases formula set\<close>

lemma set_set_union: "set (set_union a b) = set a \<union> set b"
  by (auto simp: set_union_def)

lemma init_loop_all:
  "set (fst (init_loop m (a, c))) = set a \<union> (\<Union>p \<in> set m. set (snd p))"
proof (induction m arbitrary: a c)
  case Nil
  show ?case by simp
next
  case (Cons p m)
  obtain k v where p: "p = (k, v)" by (cases p)
  show ?case unfolding p by (simp add: Cons.IH set_set_union Un_assoc)
qed

lemma init_loop_cache:
  "snd (init_loop m (a, c)) k = Some v \<Longrightarrow>
     c k = Some v \<or> (\<exists>p \<in> set m. fst p = k \<and> v = list_of_set (snd p))"
proof (induction m arbitrary: a c)
  case Nil
  then show ?case by simp
next
  case (Cons p m)
  obtain k' v' where p: "p = (k', v')" by (cases p)
  from Cons.prems have "snd (init_loop m (set_union a v', c(k' \<mapsto> list_of_set v'))) k = Some v"
    by (simp add: p)
  from Cons.IH [OF this] show ?case
    by (auto simp: p split: if_splits)
qed

text \<open>
  C8. After construction the entry of the sentinel \<open>-1\<close> holds exactly the union of the
  formula sets passed in, so it contains each of these sets, and the set cached under
  any database id. For the databases \<open>{A, B}\<close> and \<open>{B, C}\<close> it is \<open>{A, B, C}\<close>.
\<close>

theorem all_databases_union:
  "\<exists>st all_mfs. init mol_formulas (Dir es) maxsize = Inr st
     \<and> mf_cache st (- 1) = Some all_mfs \<and> distinct all_mfs
     \<and> set all_mfs = (\<Union>p \<in> set mol_formulas. set (snd p))
     \<and> (\<forall>p \<in> set mol_formulas. set (snd p) \<subseteq> set all_mfs)
     \<and> (\<forall>db_id mfs. mf_cache st db_id = Some mfs \<longrightarrow> set mfs \<subseteq> set all_mfs)"
proof -
  obtain a c where ac: "init_loop mol_formulas ([], Map.empty) = (a, c)"
    by (cases "init_loop mol_formulas ([], Map.empty)")
  let ?st = "\<lparr> fs = Dir es, mf_cache = c(- 1 \<mapsto> list_of_set a), lru = [],
      cache_size = maxsize \<rparr> :: 'a storage"
  have st: "init mol_formulas (Dir es) maxsize = Inr ?st"
    by (simp add: init_def ac)
  have un: "set (list_of_set a) = (\<Union>p \<in> set mol_formulas. set (snd p))"
    using init_loop_all [of mol_formulas "[]" Map.empty] by (simp add: ac list_of_set_def)
  have cached: "set mfs \<subseteq> set (list_of_set a)" if "mf_cache ?st db_id = Some mfs" for db_id mfs
  proof (cases "db_id = - 1")
    case True
    with that show ?thesis by simp
  next
    case False
    with that have "snd (init_loop mol_formulas ([], Map.empty)) db_id = Some mfs"
      by (simp add: ac)
    from init_loop_cache [OF this] obtain p where "p \<in> set mol_formulas" "mfs = list_of_set (snd p)"
      by auto
    then show ?thesis unfolding un by (auto simp: list_of_set_def)
  qed
  have sub: "\<forall>p \<in> set mol_formulas. set (snd p) \<subseteq> set (list_of_set a)"
    unfolding un by blast
  have d: "distinct (list_of_set a)" by (simp add: list_of_set_def)
  have m: "mf_cache ?st (- 1) = Some (list_of_set a)" by simp
  from st m d un sub cached show ?thesis by blast
qed

theorem all_databases_union_witness:
  "\<exists>st all_mfs. init [(1, [''A'', ''B'']), (2, [''B'', ''C''])] (Dir []) 3
       = Inr (st :: real storage)
     \<and> mf_cache st (- 1) = Some all_mfs \<and> set all_mfs = {''A'', ''B'', ''C''}
     \<and> set [''A'', ''B''] \<subseteq> set all_mfs \<and> set [''B'', ''C''] \<subseteq> set all_mfs"
proof -
  from all_databases_union [of "[(1, [''A'', ''B'']), (2, [''B'', ''C''])]" "[]" 3]
  obtain st :: "real storage" and all_mfs where
    h: "init [(1, [''A'', ''B'']), (2, [''B'', ''C''])] (Dir []) 3 = Inr st"
      "mf_cache st (- 1) = Some all_mfs"
      "set all_mfs = (\<Union>p \<in> set [(1::int, [''A'', ''B'']), (2, [''B'', ''C''])]. set (snd p))"
    by blast
  from h(3) have "set all_mfs = {''A'', ''B'', ''C''}" by auto
  with h(1,2) show ?thesis by auto
qed

subsection \<open>The directory tree and the loader\<close>


text \<open>Loading changes nothing but the memo, and a second load returns the same frame.\<close>

lemma load_dir_frame:
  "load_dir st p = Inr (df, st') \<Longrightarrow>
     fs st' = fs st \<and> mf_cache st' = mf_cache st \<and> cache_size st' = cache_size st"
  by (auto simp: load_dir_def split: option.splits sum.splits if_splits)

lemma load_frame:
  "load st p = Inr (df, st') \<Longrightarrow>
     fs st' = fs st \<and> mf_cache st' = mf_cache st \<and> cache_size st' = cache_size st"
  by (auto simp: load_def dest: load_dir_frame split: sum.splits if_splits)


lemma load_dir_twice:
  assumes "load_dir st p = Inr (df, st')"
  shows "\<exists>st''. load_dir st' p = Inr (df, st'')"
proof (cases "map_of (lru st) p")
  case (Some d)
  with assms have "df = d" and "st' = st\<lparr>lru := (p, d) # AList.delete p (lru st)\<rparr>"
    by (auto simp: load_dir_def)
  then show ?thesis by (simp add: load_dir_def)
next
  case None
  with assms obtain es dfs where
    es: "iterdir (fs st) p = Inr es"
    and dfs: "sequence_err (map (\<lambda>e. load_single_file (fs st) (p @ [fst e])) es) = Inr dfs"
    and ne: "dfs \<noteq> []" and df: "df = concat dfs"
    and st': "st' = st\<lparr>lru := take (cache_size st) ((p, concat dfs) # lru st)\<rparr>"
    by (auto simp: load_dir_def split: sum.splits if_splits)
  show ?thesis
  proof (cases "cache_size st")
    case 0
    with st' have "st' = st\<lparr>lru := []\<rparr>" by simp
    then show ?thesis using es dfs ne df by (simp add: load_dir_def)
  next
    case (Suc n)
    with st' have "map_of (lru st') p = Some df" by (simp add: df)
    then show ?thesis by (simp add: load_dir_def)
  qed
qed

lemma load_twice:
  assumes "load st p = Inr (df, st')"
  shows "\<exists>st''. load st' p = Inr (df, st'')"
proof (cases "is_dir (fs st) p")
  case True
  with assms have ld: "load_dir st p = Inr (df, st')" by (simp add: load_def)
  from load_dir_frame [OF ld] True have "is_dir (fs st') p" by simp
  with load_dir_twice [OF ld] show ?thesis by (simp add: load_def)
next
  case False
  with assms show ?thesis by (auto simp: load_def split: sum.splits)
qed

lemma load_patterns_twice:
  assumes "load_patterns st instr charge db_id adducts = Inr (df, st')"
  shows "\<exists>st''. load_patterns st' instr charge db_id adducts = Inr (df, st'')"
proof -
  from assms obtain df0 where ld: "load st (dir_path instr charge) = Inr (df0, st')"
    by (auto simp: load_patterns_def Let_def split: sum.splits if_splits)
  from load_twice [OF ld] obtain st'' where
    ld2: "load st' (dir_path instr charge) = Inr (df0, st'')" by blast
  have "molecular_formulas st'' db_id = molecular_formulas st' db_id"
    using load_frame [OF ld2] by (simp add: molecular_formulas_def)
  with assms ld ld2 have "load_patterns st' instr charge db_id adducts = Inr (df, st'')"
    by (auto simp: load_patterns_def Let_def split: sum.splits if_splits)
  then show ?thesis by blast
qed

subsection \<open>The small store, evaluated\<close>

lemma str_int_1: "str_int 1 = ''1''"
  by (simp add: str_int_def string_of_nat.simps digit_char_def)

lemma example_load:
  "load example_storage (dir_path example_instr 1) = Inr (example_df, example_cached)"
  by (simp add: load_def load_dir_def is_dir_def iterdir_def dir_path_def str_int_1
      example_storage_def example_tree_def load_single_file_def example_instr_def
      example_df_def example_cached_def)

lemma example_load_cached:
  "load example_cached (dir_path example_instr 1) = Inr (example_df, example_cached)"
  by (simp add: load_def load_dir_def is_dir_def dir_path_def str_int_1
      example_storage_def example_tree_def example_instr_def example_cached_def)

lemma example_merge:
  "merge adduct example_df [''+H'', ''+He'', ''+Li''] = example_df"
  by (simp add: merge_def example_df_def unique_def example_row_def)

lemma example_load_patterns:
  "load_patterns example_storage example_instr 1 None [''+H'', ''+He'', ''+Li'']
     = Inr (example_df, example_cached)"
  by (simp add: load_patterns_def example_load example_merge)

lemma example_load_patterns_cached:
  "load_patterns example_cached example_instr 1 None [''+H'', ''+He'', ''+Li'']
     = Inr (example_df, example_cached)"
  by (simp add: load_patterns_def example_load_cached example_merge)

lemma example_load_patterns_target:
  "load_patterns example_storage example_instr 1 None [''+H'']
     = Inr ([example_row ''H2O'' ''+H''], example_cached)"
  by (simp add: load_patterns_def example_load)
    (simp add: merge_def example_df_def unique_def example_row_def)

lemma example_seed: "seed_state example_rng 42 = [42, 0, 1]"
  by (simp add: example_rng_def)

subsection \<open>Configurations of an empty tree\<close>

text \<open>
  C5. On an empty partition tree \<open>_configurations\<close> builds a frame from no record at
  all, which has no columns, and both \<open>instrument_settings\<close> and
  \<open>adduct_charge_pairs\<close> end in \<open>KeyError\<close> when they select their columns: neither
  returns the empty set.
\<close>

theorem empty_tree_raises:
  "instrument_settings (st\<lparr>fs := Dir []\<rparr>) = Inl KeyError
   \<and> adduct_charge_pairs (st\<lparr>fs := Dir []\<rparr>) = Inl KeyError"
  by (simp add: instrument_settings_def adduct_charge_pairs_def configurations_def iterdir_def
      from_records_def get_column_def get_columns_def unique_def)

subsection \<open>Queries for an unknown database\<close>

text \<open>
  C6, as the claim has it, fails: the directory of the query exists and database \<open>2\<close>
  is unknown, and the call raises \<open>KeyError\<close>.
\<close>

theorem unknown_database_counterexample:
  "mf_cache example_storage 2 = None
   \<and> is_dir (fs example_storage) (dir_path example_instr 1)
   \<and> load_patterns example_storage example_instr 1 (Some 2) [] = Inl KeyError"
  by (simp add: load_patterns_def example_load molecular_formulas_def)
    (simp add: example_storage_def example_tree_def is_dir_def dir_path_def str_int_1
      example_instr_def example_cached_def)

text \<open>
  C6, amended. A query that names a database id other than \<open>0\<close> which is not among
  the keys of \<open>_mf_cache\<close> raises \<open>KeyError\<close> once its partition directory has been
  loaded; it does not return an empty result.
\<close>

theorem unknown_database_raises:
  assumes "mf_cache st d = None" and "d \<noteq> 0"
    and "load st (dir_path instr charge) = Inr (df, st')"
  shows "load_patterns st instr charge (Some d) adducts = Inl KeyError"
  using assms load_frame [OF assms(3)]
  by (simp add: load_patterns_def molecular_formulas_def Let_def)

theorem unknown_database_raises_witness:
  "mf_cache example_storage 7 = None \<and> (7::int) \<noteq> 0
   \<and> load example_storage (dir_path example_instr 1) = Inr (example_df, example_cached)
   \<and> load_patterns example_storage example_instr 1 (Some 7) [''+H''] = Inl KeyError"
proof -
  have a: "mf_cache example_storage 7 = None" by (simp add: example_storage_def)
  from unknown_database_raises [OF a _ example_load, of "[''+H'']"] a example_load
  show ?thesis by simp
qed

subsection \<open>Generation\<close>

text \<open>
  No call to \<open>generate_patterns\<close> returns: whatever does not fail before line 186
  fails there.
\<close>

lemma generate_patterns_raises:
  "\<exists>e. snd (generate_patterns ops ms st instr a ch db) = Some e"
  by (auto simp: generate_patterns_def frame_sub_set_def Let_def
      split: sum.splits option.splits prod.splits if_splits)


subsection \<open>The resolving power\<close>

text \<open>
  C7. For every formula that the loop of \<open>generate_patterns\<close> processes (the formulas
  for which \<open>isotopePattern\<close> returns a pattern \<open>p\<close>), the row it builds comes from
  \<open>centroids\<close> called with the instrument model \<open>tof\<close> of resolving power
  \<open>m0 / (sigma * 2.3548200450309493)\<close>, where \<open>sigma = 5.0 / pts_per_mz\<close> and \<open>m0\<close> is
  the first mass of \<open>p\<close>.
\<close>

theorem instrument_model_resolving_power:
  assumes "compute_patterns ops ms instr a ch mfs = Inr df"
  shows "list_all2
     (\<lambda>m r. \<exists>p m0 rest rp.
        isotopePattern ms (m @ a) = Some p \<and> masses ms p = m0 # rest
        \<and> resolving_power ops (pts_per_mz instr) m0 = Some rp
        \<and> r = \<lparr> mf = m,
               mzs = masses ms (sortByMass ms (trimmed ms ISOTOPIC_PEAK_N
                       (centroids ms (InstrumentModel ''tof'' rp) (addCharge ms ch p)))),
               intensities = pattern_intensities ms (sortByMass ms (trimmed ms ISOTOPIC_PEAK_N
                       (centroids ms (InstrumentModel ''tof'' rp) (addCharge ms ch p)))),
               adduct = a \<rparr>)
     (filter (\<lambda>m. isotopePattern ms (m @ a) \<noteq> None) mfs) df"
  using assms
proof (induction mfs arbitrary: df)
  case Nil
  then show ?case by simp
next
  case (Cons m mfs)
  show ?case
  proof (cases "isotopePattern ms (m @ a)")
    case None
    with Cons.prems have "compute_patterns ops ms instr a ch mfs = Inr df" by simp
    from Cons.IH [OF this] None show ?thesis by simp
  next
    case (Some p)
    with Cons.prems obtain df' m0 rest rp where
      rest: "compute_patterns ops ms instr a ch mfs = Inr df'"
      and m0: "masses ms p = m0 # rest"
      and rp: "resolving_power ops (pts_per_mz instr) m0 = Some rp"
      and df: "df = \<lparr> mf = m,
               mzs = masses ms (sortByMass ms (trimmed ms ISOTOPIC_PEAK_N
                       (centroids ms (InstrumentModel ''tof'' rp) (addCharge ms ch p)))),
               intensities = pattern_intensities ms (sortByMass ms (trimmed ms ISOTOPIC_PEAK_N
                       (centroids ms (InstrumentModel ''tof'' rp) (addCharge ms ch p)))),
               adduct = a \<rparr> # df'"
      by (auto simp: Let_def resolving_power_def SIGMA_TO_FWHM_def
          split: option.splits list.splits sum.splits)
    from Cons.IH [OF rest] Some m0 rp show ?thesis unfolding df by auto
  qed
qed

theorem instrument_model_resolving_power_witness:
  "compute_patterns real_ops example_engine example_instr ''+K'' 1 [''H2O'', ''Xx'']
     = Inr [\<lparr> mf = ''H2O'', mzs = [19, 20], intensities = [100, 1], adduct = ''+K'' \<rparr>]
   \<and> resolving_power real_ops (pts_per_mz example_instr) 19
       = Some (19 / (5 / 1 * 2.3548200450309493))
   \<and> list_all2
     (\<lambda>m r. \<exists>p m0 rest rp.
        isotopePattern example_engine (m @ ''+K'') = Some p
        \<and> masses example_engine p = m0 # rest
        \<and> resolving_power real_ops (pts_per_mz example_instr) m0 = Some rp
        \<and> r = \<lparr> mf = m,
               mzs = masses example_engine (sortByMass example_engine
                       (trimmed example_engine ISOTOPIC_PEAK_N
                         (centroids example_engine (InstrumentModel ''tof'' rp)
                           (addCharge example_engine 1 p)))),
               intensities = pattern_intensities example_engine (sortByMass example_engine
                       (trimmed example_engine ISOTOPIC_PEAK_N
                         (centroids example_engine (InstrumentModel ''tof'' rp)
                           (addCharge example_engine 1 p)))),
               adduct = ''+K'' \<rparr>)
     [''H2O'']
     [\<lparr> mf = ''H2O'', mzs = [19, 20], intensities = [100, 1], adduct = ''+K'' \<rparr>]"
proof -
  have run: "compute_patterns real_ops example_engine example_instr ''+K'' 1 [''H2O'', ''Xx'']
     = Inr [\<lparr> mf = ''H2O'', mzs = [19, 20], intensities = [100, 1], adduct = ''+K'' \<rparr>]"
    by (simp add: example_engine_def real_ops_def example_instr_def SIGMA_TO_FWHM_def
        ISOTOPIC_PEAK_N_def)
  have rp: "resolving_power real_ops (pts_per_mz example_instr) 19
       = Some (19 / (5 / 1 * 2.3548200450309493))"
    by (simp add: resolving_power_def real_ops_def example_instr_def)
  have f: "filter (\<lambda>m. isotopePattern example_engine (m @ ''+K'') \<noteq> None) [''H2O'', ''Xx'']
      = [''H2O'']"
    by (simp add: example_engine_def)
  from instrument_model_resolving_power [OF run] run rp show ?thesis
    unfolding f by simp
qed

subsection \<open>Generation and the memo of the loader\<close>




subsection \<open>The FDR subsample of the small store\<close>

lemma example_fdr_He:
  "fdr_subsample example_rng example_df [''+H''] 1 [0, 1, 1, 0]
     = Inr (example_out ''+He'', [1, 0])"
  by (simp add: fdr_subsample_def example_df_def example_row_def with_is_target_def
      groupby_is_target_def unique_def select_decoys_def example_rng_def numeral_2_eq_2
      argsort_def py_take_def mark_def set_column_def flag_def upt_rec example_out_def)

lemma example_fdr_Li:
  "fdr_subsample example_rng example_df [''+H''] 1 [1, 0]
     = Inr (example_out ''+Li'', [])"
  by (simp add: fdr_subsample_def example_df_def example_row_def with_is_target_def
      groupby_is_target_def unique_def select_decoys_def example_rng_def numeral_2_eq_2
      argsort_def py_take_def mark_def set_column_def flag_def upt_rec example_out_def)

lemma example_fdr_seeded:
  "fdr_subsample example_rng example_df [''+H''] 1 [42, 0, 1]
     = Inr (example_out ''+Li'', [1])"
  by (simp add: fdr_subsample_def example_df_def example_row_def with_is_target_def
      groupby_is_target_def unique_def select_decoys_def example_rng_def numeral_2_eq_2
      argsort_def py_take_def mark_def set_column_def flag_def upt_rec example_out_def)

lemma example_fdr_negative:
  "fdr_subsample example_rng example_df [''+H''] (- 1) [0, 1, 1, 0]
     = Inr (example_out ''+He'', [1, 0])"
  by (simp add: fdr_subsample_def example_df_def example_row_def with_is_target_def
      groupby_is_target_def unique_def select_decoys_def example_rng_def numeral_2_eq_2
      argsort_def py_take_def mark_def set_column_def flag_def upt_rec example_out_def)

lemma example_groups:
  "formula_groups (filter (\<lambda>r. adduct r \<notin> set [''+H'']) example_df)
     = [[example_row ''H2O'' ''+He'', example_row ''H2O'' ''+Li'']]"
  by (simp add: formula_groups_def example_df_def example_row_def unique_def upt_rec)

lemma example_per_formula_groups:
  "per_formula_groups (filter (\<lambda>r. adduct r \<notin> set [''+H'']) example_df)"
  unfolding per_formula_groups_def example_groups
  by (simp add: example_df_def example_row_def unique_def)

subsection \<open>One class of rows only\<close>

lemma groupby_one_class:
  assumes "(\<forall>r \<in> set df. is_target r) \<or> (\<forall>r \<in> set df. \<not> is_target r)"
  shows "length (groupby_is_target df) \<le> 1"
  using assms by (auto simp: groupby_is_target_def filter_empty_conv)

lemma fdr_subsample_one_class:
  assumes "(\<forall>r \<in> set df. adduct r \<in> set target_adducts)
         \<or> (\<forall>r \<in> set df. adduct r \<notin> set target_adducts)"
  shows "fdr_subsample gen df target_adducts k g = Inl ValueError"
proof -
  let ?df = "map (with_is_target target_adducts) df"
  from assms have "(\<forall>r \<in> set ?df. is_target r) \<or> (\<forall>r \<in> set ?df. \<not> is_target r)"
    by (auto simp: with_is_target_def)
  from groupby_one_class [OF this] have "length (groupby_is_target ?df) \<le> 1" .
  then show ?thesis
    by (cases "groupby_is_target ?df") (auto simp: fdr_subsample_def split: list.splits)
qed

text \<open>
  C10. When the frame that \<open>load_patterns\<close> returns for the target and decoy adducts
  holds target rows only or decoy rows only (or no row), \<open>load_fdr_subsample\<close> raises
  \<open>ValueError\<close>: the groups of \<open>is_target\<close> cannot be unpacked into two frames.
\<close>

theorem one_class_raises:
  assumes "load_patterns st instr charge db_id (target_adducts @ decoy_adducts) = Inr (df, st')"
    and "(\<forall>r \<in> set df. adduct r \<in> set target_adducts)
         \<or> (\<forall>r \<in> set df. adduct r \<notin> set target_adducts)"
  shows "load_fdr_subsample gen st g instr charge db_id target_adducts decoy_adducts
           decoys_per_target random_seed = Inl ValueError"
  by (simp add: load_fdr_subsample_def np_random_seed_def assms(1)
      fdr_subsample_one_class [OF assms(2)] split: option.splits)

theorem one_class_raises_witness:
  "load_patterns example_storage example_instr 1 None ([''+H''] @ [])
     = Inr ([example_row ''H2O'' ''+H''], example_cached)
   \<and> adduct (example_row ''H2O'' ''+H'') \<in> set [''+H'']
   \<and> load_fdr_subsample example_rng example_storage [0, 1] example_instr 1 None [''+H''] []
        20 (Some 42) = Inl ValueError"
proof -
  have "(\<forall>r \<in> set [example_row ''H2O'' ''+H'']. adduct r \<in> set [''+H''])
      \<or> (\<forall>r \<in> set [example_row ''H2O'' ''+H'']. adduct r \<notin> set [''+H''])"
    by (simp add: example_row_def)
  moreover have "load_patterns example_storage example_instr 1 None ([''+H''] @ [])
      = Inr ([example_row ''H2O'' ''+H''], example_cached)"
    by (simp add: example_load_patterns_target)
  ultimately show ?thesis
    using one_class_raises [of example_storage example_instr 1 None "[''+H'']" "[]"
        "[example_row ''H2O'' ''+H'']" example_cached example_rng "[0, 1]" 20 "Some 42"]
    by (simp add: example_row_def)
qed

subsection \<open>Coverage of the selection\<close>

lemma set_column_False:
  "set_column a (replicate (length t) False) t
     = map (\<lambda>r. r\<lparr>selected := AList.update a False (selected r)\<rparr>) t"
  by (induction t) (auto simp: set_column_def)

lemma set_column_is_target:
  "r \<in> set (set_column a vals df) \<Longrightarrow> \<exists>r' \<in> set df. is_target r = is_target r'"
  by (auto simp: set_column_def dest!: set_zip_leftD)

lemma target_loop_is_target:
  assumes "target_loop gen n m k as t d g = ((t', d'), g')"
    and "\<forall>r \<in> set t. is_target r" and "\<forall>r \<in> set d. \<not> is_target r"
  shows "(\<forall>r \<in> set t'. is_target r) \<and> (\<forall>r \<in> set d'. \<not> is_target r)"
  using assms
proof (induction as arbitrary: t d g)
  case Nil
  then show ?case by simp
next
  case (Cons a as)
  obtain sel g1 where s: "select_decoys gen n m k (length d) g = (sel, g1)"
    by (cases "select_decoys gen n m k (length d) g")
  from Cons.prems(1) have
    "target_loop gen n m k as (set_column a (replicate (length t) False) t)
       (set_column a sel d) g1 = ((t', d'), g')"
    by (simp add: s)
  moreover have "\<forall>r \<in> set (set_column a (replicate (length t) False) t). is_target r"
    using Cons.prems(2) set_column_is_target by blast
  moreover have "\<forall>r \<in> set (set_column a sel d). \<not> is_target r"
    using Cons.prems(3) set_column_is_target by blast
  ultimately show ?case by (rule Cons.IH)
qed

lemma target_loop_targets_False:
  assumes "target_loop gen n m k as t d g = ((t', d'), g')"
    and "\<forall>r \<in> set t. \<forall>a \<in> A. map_of (selected r) a = Some False"
  shows "\<forall>r \<in> set t'. \<forall>a \<in> A \<union> set as. map_of (selected r) a = Some False"
  using assms
proof (induction as arbitrary: t d g A)
  case Nil
  then show ?case by simp
next
  case (Cons a as)
  obtain sel g1 where s: "select_decoys gen n m k (length d) g = (sel, g1)"
    by (cases "select_decoys gen n m k (length d) g")
  let ?t = "set_column a (replicate (length t) False) t"
  from Cons.prems(1) have
    run: "target_loop gen n m k as ?t (set_column a sel d) g1 = ((t', d'), g')"
    by (simp add: s)
  have "\<forall>r \<in> set ?t. \<forall>b \<in> insert a A. map_of (selected r) b = Some False"
    using Cons.prems(2) by (auto simp: set_column_False update_conv')
  from Cons.IH [OF run this] show ?case by simp
qed

text \<open>
  C3. In the table of a call that returned, every decoy row has the column of at least
  one target adduct set, and every target row has the column of every target adduct
  cleared.
\<close>

theorem coverage_invariant:
  assumes "load_fdr_subsample gen st g instr charge db_id target_adducts decoy_adducts
             decoys_per_target random_seed = Inr (out, st', g')"
  shows "\<forall>r \<in> set out.
           (if is_target r
            then \<forall>a \<in> set target_adducts. map_of (selected r) a = Some False
            else \<exists>a \<in> set target_adducts. map_of (selected r) a = Some True)"
proof -
  from assms obtain df g1 where
    sub: "fdr_subsample gen df target_adducts decoys_per_target g1 = Inr (out, g')"
    by (auto simp: load_fdr_subsample_def split: option.splits sum.splits if_splits)
  let ?df = "map (with_is_target target_adducts) df"
  from sub obtain decoy_df target_df where
    grp: "groupby_is_target ?df = [decoy_df, target_df]"
    by (auto simp: fdr_subsample_def split: list.splits)
  let ?n = "length (unique (map adduct decoy_df))"
  let ?m = "length decoy_df div ?n"
  obtain t' d' g2 where
    loop: "target_loop gen ?n ?m decoys_per_target target_adducts target_df decoy_df g1
             = ((t', d'), g2)"
    by (metis surj_pair)
  from sub grp loop have
    out: "out = t' @ filter (\<lambda>r. list_ex (\<lambda>a. flag a r) target_adducts) d'"
    by (auto simp: fdr_subsample_def Let_def split: if_splits)
  have classes: "decoy_df = filter (\<lambda>r. \<not> is_target r) ?df \<and> target_df = filter is_target ?df"
    using grp by (auto simp: groupby_is_target_def split: if_splits)
  then have t: "\<forall>r \<in> set target_df. is_target r" and d: "\<forall>r \<in> set decoy_df. \<not> is_target r"
    by auto
  from target_loop_is_target [OF loop t d]
  have t': "\<forall>r \<in> set t'. is_target r" and d': "\<forall>r \<in> set d'. \<not> is_target r"
    by auto
  have "\<forall>r \<in> set target_df. \<forall>a \<in> {}. map_of (selected r) a = Some False" by simp
  from target_loop_targets_False [OF loop this]
  have f: "\<forall>r \<in> set t'. \<forall>a \<in> set target_adducts. map_of (selected r) a = Some False"
    by simp
  show ?thesis
  proof
    fix r assume "r \<in> set out"
    then consider "r \<in> set t'"
      | "r \<in> set d'" "list_ex (\<lambda>a. flag a r) target_adducts"
      by (auto simp: out)
    then show "if is_target r
            then \<forall>a \<in> set target_adducts. map_of (selected r) a = Some False
            else \<exists>a \<in> set target_adducts. map_of (selected r) a = Some True"
    proof cases
      case 1
      with t' f show ?thesis by simp
    next
      case 2
      with d' show ?thesis by (auto simp: list_ex_iff flag_def)
    qed
  qed
qed

theorem coverage_invariant_witness:
  "load_fdr_subsample example_rng example_storage [0, 1, 1, 0] example_instr 1 None
       [''+H''] [''+He'', ''+Li''] 1 None
     = Inr (example_out ''+He'', example_cached, [1, 0])
   \<and> is_target (example_out ''+He'' ! 0)
   \<and> map_of (selected (example_out ''+He'' ! 0)) ''+H'' = Some False
   \<and> \<not> is_target (example_out ''+He'' ! 1)
   \<and> map_of (selected (example_out ''+He'' ! 1)) ''+H'' = Some True"
proof -
  have run: "load_fdr_subsample example_rng example_storage [0, 1, 1, 0] example_instr 1 None
       [''+H''] [''+He'', ''+Li''] 1 None
     = Inr (example_out ''+He'', example_cached, [1, 0])"
    by (simp add: load_fdr_subsample_def example_load_patterns example_fdr_He)
  from coverage_invariant [OF run] run show ?thesis
    by (simp add: example_out_def)
qed

subsection \<open>The number of decoys per target and formula\<close>

lemma rand_length: "length (fst (rand gen n g)) = n"
proof (induction n arbitrary: g)
  case 0
  show ?case by simp
next
  case (Suc n)
  obtain x g1 where a: "next_float gen g = (x, g1)" by (cases "next_float gen g")
  obtain xs g2 where b: "rand gen n g1 = (xs, g2)" by (cases "rand gen n g1")
  from Suc [of g1] show ?case by (simp add: a b)
qed

lemma argsort_props:
  "distinct (argsort xs) \<and> set (argsort xs) = {..<length xs} \<and> length (argsort xs) = length xs"
  by (auto simp: argsort_def)

lemma py_take_props:
  assumes "0 \<le> k" and "k \<le> int (length xs)" and "distinct xs"
  shows "distinct (py_take k xs) \<and> set (py_take k xs) \<subseteq> set xs
     \<and> length (py_take k xs) = nat k"
  using assms by (auto simp: py_take_def dest: in_set_takeD)

lemma mark_length: "length (mark sub b s) = length s"
  unfolding mark_def by (induction sub arbitrary: s) auto

lemma mark_nth:
  "p < length s \<Longrightarrow> mark sub b s ! p = (s ! p \<or> (\<exists>j \<in> set sub. p = b + j))"
  unfolding mark_def
proof (induction sub arbitrary: s)
  case Nil
  then show ?case by simp
next
  case (Cons j sub)
  let ?f = "\<lambda>j s. s[b + j := True]"
  have "fold ?f (j # sub) s ! p = fold ?f sub (s[b + j := True]) ! p" by simp
  also have "\<dots> = (s[b + j := True] ! p \<or> (\<exists>j' \<in> set sub. p = b + j'))"
    using Cons.prems by (intro Cons.IH) simp
  also have "s[b + j := True] ! p = (s ! p \<or> p = b + j)"
    using Cons.prems by (cases "b + j = p") auto
  finally show ?case by auto
qed

lemma select_loop_length:
  "length (fst (select_loop gen n k js sel g)) = length sel"
  by (induction js arbitrary: sel g) (auto simp: mark_length split: prod.splits)

lemma block_div: "q < n \<Longrightarrow> (i * n + q) div n = (i::nat)"
  by simp

lemma select_loop_inv:
  assumes "select_loop gen n k js sel g = (s, g')"
    and "0 < n" and "0 \<le> k" and "k \<le> int n" and "distinct js"
    and "\<forall>i \<in> set js. i * n + n \<le> length sel"
  shows "(\<forall>p < length sel. p div n \<notin> set js \<longrightarrow> s ! p = sel ! p)
     \<and> (\<forall>i \<in> set js. (\<forall>q < n. \<not> sel ! (i * n + q)) \<longrightarrow>
            card {q. q < n \<and> s ! (i * n + q)} = nat k)"
  using assms
proof (induction js arbitrary: sel g)
  case Nil
  then show ?case by simp
next
  case (Cons i0 js)
  obtain xs g1 where r: "rand gen n g = (xs, g1)" by (cases "rand gen n g")
  define sub where "sub = py_take k (argsort xs)"
  define sel1 where "sel1 = mark sub (i0 * n) sel"
  have lx: "length xs = n" using rand_length [of gen n g] by (simp add: r)
  have sub: "distinct sub" "set sub \<subseteq> {..<n}" "length sub = nat k"
    using py_take_props [of k "argsort xs"] argsort_props [of xs] Cons.prems(3,4)
    by (auto simp: sub_def lx)
  have l1: "length sel1 = length sel" by (simp add: sel1_def mark_length)
  from Cons.prems(1) have run: "select_loop gen n k js sel1 g1 = (s, g')"
    by (simp add: r sub_def sel1_def)
  have "(\<forall>p < length sel1. p div n \<notin> set js \<longrightarrow> s ! p = sel1 ! p)
     \<and> (\<forall>i \<in> set js. (\<forall>q < n. \<not> sel1 ! (i * n + q)) \<longrightarrow>
            card {q. q < n \<and> s ! (i * n + q)} = nat k)"
    using Cons.prems by (intro Cons.IH [OF run]) (auto simp: l1)
  then have ih1: "\<And>p. p < length sel \<Longrightarrow> p div n \<notin> set js \<Longrightarrow> s ! p = sel1 ! p"
    and ih2: "\<And>i. i \<in> set js \<Longrightarrow> \<forall>q < n. \<not> sel1 ! (i * n + q) \<Longrightarrow>
            card {q. q < n \<and> s ! (i * n + q)} = nat k"
    by (auto simp: l1)
  have m1: "sel1 ! p = (sel ! p \<or> (\<exists>j \<in> set sub. p = i0 * n + j))" if "p < length sel" for p
    unfolding sel1_def by (rule mark_nth [OF that])
  have other: "sel1 ! p = sel ! p" if "p < length sel" "p div n \<noteq> i0" for p
  proof -
    have "p \<noteq> i0 * n + j" if "j \<in> set sub" for j
    proof
      assume "p = i0 * n + j"
      moreover have "j < n" using sub(2) that by auto
      ultimately have "p div n = i0" by simp
      with \<open>p div n \<noteq> i0\<close> show False by simp
    qed
    with m1 [OF that(1)] show ?thesis by auto
  qed
  have in_range: "i * n + q < length sel" if "i \<in> set (i0 # js)" "q < n" for i q
    using Cons.prems(6) that by fastforce
  show ?case
  proof (intro conjI allI ballI impI)
    fix p assume "p < length sel" "p div n \<notin> set (i0 # js)"
    then show "s ! p = sel ! p" using ih1 [of p] other [of p] by simp
  next
    fix i assume i: "i \<in> set (i0 # js)" and clear: "\<forall>q < n. \<not> sel ! (i * n + q)"
    show "card {q. q < n \<and> s ! (i * n + q)} = nat k"
    proof (cases "i = i0")
      case True
      have "i0 \<notin> set js" using Cons.prems(5) by simp
      have "s ! (i0 * n + q) = (q \<in> set sub)" if "q < n" for q
      proof -
        have lt: "i0 * n + q < length sel" using in_range [of i0 q] that by simp
        have "(i0 * n + q) div n \<notin> set js" using that \<open>i0 \<notin> set js\<close> by simp
        from ih1 [OF lt this] m1 [OF lt] clear that True show ?thesis by auto
      qed
      then have "{q. q < n \<and> s ! (i * n + q)} = set sub"
        using sub(2) True by auto
      then show ?thesis using sub(1,3) by (simp add: distinct_card)
    next
      case False
      with i have ij: "i \<in> set js" by simp
      have "\<not> sel1 ! (i * n + q)" if "q < n" for q
      proof -
        have lt: "i * n + q < length sel" using in_range [OF i that] .
        have "(i * n + q) div n \<noteq> i0" using that False by simp
        from other [OF lt this] clear that show ?thesis by simp
      qed
      then show ?thesis using ih2 [OF ij] by simp
    qed
  qed
qed

lemma select_decoys_props:
  assumes "select_decoys gen n m k len g = (sel, g')"
    and "0 < n" and "0 \<le> k" and "k \<le> int n" and "m * n \<le> len"
  shows "length sel = len \<and> (\<forall>i < m. card {q. q < n \<and> sel ! (i * n + q)} = nat k)"
proof -
  have l: "length sel = len"
    using select_loop_length [of gen n k "[0..<m]" "replicate len False" g] assms(1)
    by (simp add: select_decoys_def)
  have rng: "\<forall>i \<in> set [0..<m]. i * n + n \<le> length (replicate len False)"
  proof
    fix i assume "i \<in> set [0..<m]"
    then have "Suc i \<le> m" by simp
    then have "Suc i * n \<le> m * n" by (rule mult_le_mono1)
    with assms(5) show "i * n + n \<le> length (replicate len False)" by simp
  qed
  from assms(1) have run: "select_loop gen n k [0..<m] (replicate len False) g = (sel, g')"
    by (simp add: select_decoys_def)
  note inv = select_loop_inv [OF run assms(2,3,4) distinct_upt rng]
  have "card {q. q < n \<and> sel ! (i * n + q)} = nat k" if "i < m" for i
  proof -
    have "\<forall>q < n. \<not> replicate len False ! (i * n + q)"
    proof (intro allI impI)
      fix q assume "q < n"
      have "Suc i * n \<le> m * n" using that by (intro mult_le_mono1) simp
      with \<open>q < n\<close> assms(5) have "i * n + q < len" by simp
      then show "\<not> replicate len False ! (i * n + q)" by simp
    qed
    with inv that show ?thesis by simp
  qed
  with l show ?thesis by simp
qed

lemma set_column_length:
  "length vals = length d \<Longrightarrow> length (set_column a vals d) = length d"
  by (simp add: set_column_def)

lemma set_column_nth:
  "length vals = length d \<Longrightarrow> p < length d \<Longrightarrow>
     set_column a vals d ! p = (d ! p)\<lparr>selected := AList.update a (vals ! p) (selected (d ! p))\<rparr>"
  by (simp add: set_column_def)

lemma flag_update:
  "flag b (r\<lparr>selected := AList.update a v (selected r)\<rparr>) = (if b = a then v else flag b r)"
  by (simp add: flag_def update_conv')

lemma select_decoys_length: "length (fst (select_decoys gen n m k len g)) = len"
  by (simp add: select_decoys_def select_loop_length)

lemma target_loop_frame:
  "target_loop gen n m k as t d g = ((t', d'), g') \<Longrightarrow>
     length d' = length d
     \<and> (\<forall>p < length d. mf (d' ! p) = mf (d ! p)
           \<and> (\<forall>b. b \<notin> set as \<longrightarrow> flag b (d' ! p) = flag b (d ! p)))"
proof (induction as arbitrary: t d g)
  case Nil
  then show ?case by simp
next
  case (Cons a as)
  obtain sel g1 where s: "select_decoys gen n m k (length d) g = (sel, g1)"
    by (cases "select_decoys gen n m k (length d) g")
  have ls: "length sel = length d" using select_decoys_length [of gen n m k "length d" g]
    by (simp add: s)
  let ?d = "set_column a sel d"
  from Cons.prems have
    run: "target_loop gen n m k as (set_column a (replicate (length t) False) t) ?d g1
       = ((t', d'), g')"
    by (simp add: s)
  note ih = Cons.IH [OF run]
  have ld: "length ?d = length d" by (rule set_column_length [OF ls])
  show ?case
  proof (intro conjI allI impI)
    show "length d' = length d" using ih ld by simp
  next
    fix p assume p: "p < length d"
    with ih ld have "mf (d' ! p) = mf (?d ! p)" by simp
    then show "mf (d' ! p) = mf (d ! p)" by (simp add: set_column_nth [OF ls p])
  next
    fix p b assume p: "p < length d" and b: "b \<notin> set (a # as)"
    with ih ld have "flag b (d' ! p) = flag b (?d ! p)" by simp
    also have "\<dots> = flag b (d ! p)" using b by (simp add: set_column_nth [OF ls p] flag_update)
    finally show "flag b (d' ! p) = flag b (d ! p)" .
  qed
qed

lemma target_loop_counts:
  assumes "target_loop gen n m k as t d g = ((t', d'), g')"
    and "0 < n" and "0 \<le> k" and "k \<le> int n" and "m * n \<le> length d"
  shows "\<forall>a \<in> set as. \<forall>i < m. card {q. q < n \<and> flag a (d' ! (i * n + q))} = nat k"
  using assms
proof (induction as arbitrary: t d g)
  case Nil
  then show ?case by simp
next
  case (Cons a as)
  obtain sel g1 where s: "select_decoys gen n m k (length d) g = (sel, g1)"
    by (cases "select_decoys gen n m k (length d) g")
  note sp = select_decoys_props [OF s Cons.prems(2,3,4,5)]
  then have ls: "length sel = length d" by simp
  let ?d = "set_column a sel d"
  from Cons.prems(1) have
    run: "target_loop gen n m k as (set_column a (replicate (length t) False) t) ?d g1
       = ((t', d'), g')"
    by (simp add: s)
  have ld: "length ?d = length d" by (rule set_column_length [OF ls])
  have ih: "\<forall>b \<in> set as. \<forall>i < m. card {q. q < n \<and> flag b (d' ! (i * n + q))} = nat k"
    using Cons.prems by (intro Cons.IH [OF run]) (auto simp: ld)
  note fr = target_loop_frame [OF run]
  show ?case
  proof (intro ballI allI impI)
    fix b i assume b: "b \<in> set (a # as)" and i: "i < m"
    show "card {q. q < n \<and> flag b (d' ! (i * n + q))} = nat k"
    proof (cases "b \<in> set as")
      case True
      with ih i show ?thesis by simp
    next
      case False
      with b have ba: "b = a" by simp
      have "flag a (d' ! (i * n + q)) = sel ! (i * n + q)" if "q < n" for q
      proof -
        have "Suc i * n \<le> m * n" using i by (intro mult_le_mono1) simp
        with that Cons.prems(5) have lt: "i * n + q < length d" by simp
        with fr False ba ld have "flag a (d' ! (i * n + q)) = flag a (?d ! (i * n + q))"
          by simp
        then show ?thesis by (simp add: set_column_nth [OF ls lt] flag_update)
      qed
      then have "{q. q < n \<and> flag b (d' ! (i * n + q))} = {q. q < n \<and> sel ! (i * n + q)}"
        using ba by auto
      with sp i show ?thesis by simp
    qed
  qed
qed

lemma length_unique: "length (unique xs) = card (set xs)"
  by (simp add: unique_def length_remdups_card_conv)

lemma groups_index:
  assumes pg: "per_formula_groups D" and n: "n = length (unique (map adduct D))"
    and m: "m = length D div n" and "0 < n"
  shows "length D = n * m"
    and "\<And>p. p < n * m \<Longrightarrow> mf (D ! p) = mf (D ! (p div n * n))"
    and "\<And>i j. i < m \<Longrightarrow> j < m \<Longrightarrow> mf (D ! (i * n)) = mf (D ! (j * n)) \<Longrightarrow> i = j"
    and "\<And>grp. grp \<in> set (formula_groups D) \<Longrightarrow> \<exists>i < m. mf (hd grp) = mf (D ! (i * n))"
proof -
  let ?blk = "\<lambda>i. take n (drop (i * n) D)"
  have fg: "formula_groups D = map ?blk [0..<m]"
    by (simp add: formula_groups_def n m Let_def)
  from pg have len: "length D = n * m"
    and same: "\<forall>g \<in> set (formula_groups D). \<forall>r \<in> set g. mf r = mf (hd g)"
    and dist: "distinct (map (\<lambda>g. mf (hd g)) (formula_groups D))"
    by (auto simp: per_formula_groups_def Let_def fg n [symmetric])
  show "length D = n * m" by (rule len)
  have in_range: "i * n + q < length D" if "i < m" "q < n" for i q
  proof -
    have "Suc i * n \<le> m * n" using that by (intro mult_le_mono1) simp
    with that len show ?thesis by (simp add: mult.commute)
  qed
  have blk_nth: "?blk i ! q = D ! (i * n + q)" if "i < m" "q < n" for i q
    using in_range [OF that] that by simp
  have blk_len: "length (?blk i) = n" if "i < m" for i
    using in_range [OF that, of 0] in_range [OF that, of "n - 1"] \<open>0 < n\<close> by simp
  have hd_blk: "hd (?blk i) = D ! (i * n)" if "i < m" for i
  proof -
    have "?blk i \<noteq> []" using blk_len [OF that] \<open>0 < n\<close> by auto
    then have "hd (?blk i) = ?blk i ! 0" by (simp add: hd_conv_nth)
    with blk_nth [OF that \<open>0 < n\<close>] show ?thesis by simp
  qed
  show "mf (D ! p) = mf (D ! (p div n * n))" if "p < n * m" for p
  proof -
    have i: "p div n < m" using that \<open>0 < n\<close> by (simp add: less_mult_imp_div_less mult.commute)
    have q: "p mod n < n" using \<open>0 < n\<close> by simp
    have "D ! p = ?blk (p div n) ! (p mod n)" using blk_nth [OF i q] by simp
    also have "\<dots> \<in> set (?blk (p div n))" using blk_len [OF i] q by (intro nth_mem) simp
    finally have "D ! p \<in> set (?blk (p div n))" .
    moreover have "?blk (p div n) \<in> set (formula_groups D)" using i by (simp add: fg)
    ultimately have "mf (D ! p) = mf (hd (?blk (p div n)))" using same by blast
    then show ?thesis by (simp add: hd_blk [OF i])
  qed
  show "i = j" if "i < m" "j < m" "mf (D ! (i * n)) = mf (D ! (j * n))" for i j
  proof -
    let ?hs = "map (\<lambda>g. mf (hd g)) (formula_groups D)"
    have "?hs ! i = mf (D ! (i * n))" "?hs ! j = mf (D ! (j * n))"
      using that by (simp_all add: fg hd_blk)
    with that(3) have "?hs ! i = ?hs ! j" by simp
    moreover have "i < length ?hs" "j < length ?hs" using that by (simp_all add: fg)
    ultimately show ?thesis using nth_eq_iff_index_eq [OF dist] by blast
  qed
  show "\<exists>i < m. mf (hd grp) = mf (D ! (i * n))" if "grp \<in> set (formula_groups D)" for grp
    using that hd_blk by (auto simp: fg)
qed

lemma fdr_subsample_count:
  assumes sub: "fdr_subsample gen df targets k g1 = Inr (out, g')"
    and pg: "per_formula_groups (filter (\<lambda>r. adduct r \<notin> set targets) df)"
    and k0: "0 \<le> k"
  shows "\<forall>a \<in> set targets.
           \<forall>grp \<in> set (formula_groups (filter (\<lambda>r. adduct r \<notin> set targets) df)).
             length (filter (\<lambda>r. \<not> is_target r \<and> mf r = mf (hd grp) \<and> flag a r) out) = nat k"
proof -
  let ?w = "with_is_target targets"
  let ?D = "filter (\<lambda>r. adduct r \<notin> set targets) df"
  let ?df = "map ?w df"
  from sub obtain dec tgt where grp: "groupby_is_target ?df = [dec, tgt]"
    by (auto simp: fdr_subsample_def split: list.splits)
  have classes: "dec = filter (\<lambda>r. \<not> is_target r) ?df" "tgt = filter is_target ?df" "dec \<noteq> []"
    using grp by (auto simp: groupby_is_target_def split: if_splits)
  have dec: "dec = map ?w ?D"
    unfolding classes(1) by (simp add: filter_map comp_def with_is_target_def)
  define n where "n = length (unique (map adduct dec))"
  define m where "m = length dec div n"
  have ad: "map adduct dec = map adduct ?D" by (simp add: dec with_is_target_def comp_def)
  have mfd: "map mf dec = map mf ?D" by (simp add: dec with_is_target_def comp_def)
  have n: "n = length (unique (map adduct ?D))" by (simp add: n_def ad)
  have m: "m = length ?D div n" by (simp add: m_def dec)
  have npos: "0 < n"
  proof -
    have "map adduct dec \<noteq> []" using classes(3) by simp
    then have "unique (map adduct dec) \<noteq> []" unfolding unique_def by simp
    then show ?thesis by (simp add: n_def)
  qed
  note gi = groups_index [OF pg n m npos]
  have lenD: "length dec = n * m" using gi(1) by (simp add: dec)
  obtain t' d' g2 where loop: "target_loop gen n m k targets tgt dec g1 = ((t', d'), g2)"
    by (metis surj_pair)
  from sub grp loop have kn: "k \<le> int n"
    and out: "out = t' @ filter (\<lambda>r. list_ex (\<lambda>a. flag a r) targets) d'"
    by (auto simp: fdr_subsample_def Let_def n_def m_def split: if_splits)
  have mn: "m * n \<le> length dec" by (simp add: lenD mult.commute)
  note counts = target_loop_counts [OF loop npos k0 kn mn]
  note fr = target_loop_frame [OF loop]
  have t: "\<forall>r \<in> set tgt. is_target r" and d: "\<forall>r \<in> set dec. \<not> is_target r"
    using classes by auto
  from target_loop_is_target [OF loop t d]
  have t': "\<forall>r \<in> set t'. is_target r" and d': "\<forall>r \<in> set d'. \<not> is_target r"
    by auto
  have ld': "length d' = n * m" using fr lenD by simp
  have mf': "mf (d' ! p) = mf (?D ! p)" if "p < n * m" for p
  proof -
    from fr that lenD have "mf (d' ! p) = mf (dec ! p)" by simp
    also have "\<dots> = map mf dec ! p" using that lenD by simp
    also have "\<dots> = mf (?D ! p)" using that gi(1) by (simp add: mfd)
    finally show ?thesis .
  qed
  show ?thesis
  proof (intro ballI)
    fix a grp assume a: "a \<in> set targets" and g: "grp \<in> set (formula_groups ?D)"
    from gi(4) [OF g] obtain i where i: "i < m" and f: "mf (hd grp) = mf (?D ! (i * n))"
      by blast
    let ?f = "mf (?D ! (i * n))"
    let ?P = "\<lambda>r. \<not> is_target r \<and> mf r = ?f \<and> flag a r"
    let ?Q = "\<lambda>r. mf r = ?f \<and> flag a r"
    have "filter ?P t' = []" using t' by (simp add: filter_empty_conv)
    moreover have "filter ?P (filter (\<lambda>r. list_ex (\<lambda>a. flag a r) targets) d') = filter ?Q d'"
      using d' a by (auto simp: list_ex_iff intro!: filter_cong)
    ultimately have "length (filter ?P out) = length (filter ?Q d')" by (simp add: out)
    also have "\<dots> = card {p. p < n * m \<and> ?Q (d' ! p)}"
      by (simp add: length_filter_conv_card ld')
    also have "{p. p < n * m \<and> ?Q (d' ! p)}
        = (\<lambda>q. i * n + q) ` {q. q < n \<and> flag a (d' ! (i * n + q))}"
    proof (intro set_eqI iffI)
      fix p assume "p \<in> {p. p < n * m \<and> ?Q (d' ! p)}"
      then have p: "p < n * m" and mfp: "mf (d' ! p) = ?f" and fl: "flag a (d' ! p)" by auto
      have pi: "p div n < m" using p npos by (simp add: less_mult_imp_div_less mult.commute)
      have "mf (?D ! (p div n * n)) = ?f" using gi(2) [OF p] mf' [OF p] mfp by simp
      from gi(3) [OF pi i this] have "p div n = i" .
      then have "p = i * n + p mod n" by (metis div_mult_mod_eq)
      moreover have "p mod n < n" using npos by simp
      ultimately show "p \<in> (\<lambda>q. i * n + q) ` {q. q < n \<and> flag a (d' ! (i * n + q))}"
        using fl by (intro image_eqI [of _ _ "p mod n"]) auto
    next
      fix p assume "p \<in> (\<lambda>q. i * n + q) ` {q. q < n \<and> flag a (d' ! (i * n + q))}"
      then obtain q where q: "q < n" "flag a (d' ! (i * n + q))" and pq: "p = i * n + q"
        by auto
      have "Suc i * n \<le> m * n" using i by (intro mult_le_mono1) simp
      with q have p: "p < n * m" by (simp add: pq mult.commute)
      have "p div n = i" using q by (simp add: pq)
      with gi(2) [OF p] mf' [OF p] have "mf (d' ! p) = ?f" by simp
      with p q pq show "p \<in> {p. p < n * m \<and> ?Q (d' ! p)}" by simp
    qed
    also have "card \<dots> = card {q. q < n \<and> flag a (d' ! (i * n + q))}"
      by (intro card_image) (simp add: inj_on_def)
    also have "\<dots> = nat k" using counts a i by simp
    finally show "length (filter (\<lambda>r. \<not> is_target r \<and> mf r = mf (hd grp) \<and> flag a r) out)
        = nat k"
      by (simp add: f)
  qed
qed

text \<open>
  C2, as the claim has it, fails for a negative \<open>decoys_per_target\<close>: the assertion
  admits it, the slice \<open>[:-1]\<close> keeps all indices but the last, and one decoy adduct
  of the two is marked.
\<close>

theorem decoy_count_counterexample:
  "load_patterns example_storage example_instr 1 None ([''+H''] @ [''+He'', ''+Li''])
     = Inr (example_df, example_cached)
   \<and> per_formula_groups (filter (\<lambda>r. adduct r \<notin> set [''+H'']) example_df)
   \<and> (- 1 :: int)
       \<le> int (length (unique (map adduct (filter (\<lambda>r. adduct r \<notin> set [''+H'']) example_df))))
   \<and> load_fdr_subsample example_rng example_storage [0, 1, 1, 0] example_instr 1 None
        [''+H''] [''+He'', ''+Li''] (- 1) None
     = Inr (example_out ''+He'', example_cached, [1, 0])
   \<and> int (length (filter (\<lambda>r. \<not> is_target r \<and> mf r = ''H2O'' \<and> flag ''+H'' r)
                      (example_out ''+He''))) = 1"
proof -
  have "per_formula_groups (filter (\<lambda>r. adduct r \<notin> set [''+H'']) example_df)"
    by (rule example_per_formula_groups)
  moreover have "(- 1 :: int)
       \<le> int (length (unique (map adduct (filter (\<lambda>r. adduct r \<notin> set [''+H'']) example_df))))"
    by simp
  moreover have "load_fdr_subsample example_rng example_storage [0, 1, 1, 0] example_instr 1 None
        [''+H''] [''+He'', ''+Li''] (- 1) None
     = Inr (example_out ''+He'', example_cached, [1, 0])"
    by (simp add: load_fdr_subsample_def example_load_patterns example_fdr_negative)
  moreover have "int (length (filter (\<lambda>r. \<not> is_target r \<and> mf r = ''H2O'' \<and> flag ''+H'' r)
                      (example_out ''+He''))) = 1"
    by (simp add: example_out_def flag_def)
  moreover have "load_patterns example_storage example_instr 1 None
      ([''+H''] @ [''+He'', ''+Li'']) = Inr (example_df, example_cached)"
    by (simp add: example_load_patterns)
  ultimately show ?thesis by blast
qed

text \<open>
  C2, amended. Let \<open>decoys_per_target\<close> be at least \<open>0\<close> (and at most the number of
  distinct decoy adducts, or the call does not return), and let the decoy rows of the
  loaded frame form per-formula groups with one row per decoy adduct. Then in the table
  returned, for each target adduct and each formula group, exactly \<open>decoys_per_target\<close>
  decoy rows of the group (one row being one adduct) are marked in the column of the
  target adduct.
\<close>

theorem decoy_count_invariant:
  assumes "load_patterns st instr charge db_id (target_adducts @ decoy_adducts) = Inr (df, st1)"
    and "per_formula_groups (filter (\<lambda>r. adduct r \<notin> set target_adducts) df)"
    and "0 \<le> decoys_per_target"
    and "load_fdr_subsample gen st g instr charge db_id target_adducts decoy_adducts
           decoys_per_target random_seed = Inr (out, st', g')"
  shows "\<forall>a \<in> set target_adducts.
           \<forall>grp \<in> set (formula_groups (filter (\<lambda>r. adduct r \<notin> set target_adducts) df)).
             length (filter (\<lambda>r. \<not> is_target r \<and> mf r = mf (hd grp) \<and> flag a r) out)
               = nat decoys_per_target"
proof -
  from assms(1,4) obtain g1 where
    "fdr_subsample gen df target_adducts decoys_per_target g1 = Inr (out, g')"
    by (auto simp: load_fdr_subsample_def split: option.splits sum.splits if_splits)
  from fdr_subsample_count [OF this assms(2,3)] show ?thesis .
qed

theorem decoy_count_invariant_witness:
  "load_patterns example_storage example_instr 1 None ([''+H''] @ [''+He'', ''+Li''])
     = Inr (example_df, example_cached)
   \<and> per_formula_groups (filter (\<lambda>r. adduct r \<notin> set [''+H'']) example_df)
   \<and> load_fdr_subsample example_rng example_storage [0, 1, 1, 0] example_instr 1 None
        [''+H''] [''+He'', ''+Li''] 1 None
     = Inr (example_out ''+He'', example_cached, [1, 0])
   \<and> length (filter (\<lambda>r. \<not> is_target r \<and> mf r = ''H2O'' \<and> flag ''+H'' r)
                 (example_out ''+He'')) = nat 1"
proof -
  have run: "load_fdr_subsample example_rng example_storage [0, 1, 1, 0] example_instr 1 None
       [''+H''] [''+He'', ''+Li''] 1 None
     = Inr (example_out ''+He'', example_cached, [1, 0])"
    by (simp add: load_fdr_subsample_def example_load_patterns example_fdr_He)
  have k: "(0::int) \<le> 1" by simp
  have lp: "load_patterns example_storage example_instr 1 None
      ([''+H''] @ [''+He'', ''+Li'']) = Inr (example_df, example_cached)"
    by (simp add: example_load_patterns)
  have a: "''+H'' \<in> set [''+H'']" by simp
  have grp: "[example_row ''H2O'' ''+He'', example_row ''H2O'' ''+Li'']
      \<in> set (formula_groups (filter (\<lambda>r. adduct r \<notin> set [''+H'']) example_df))"
    unfolding example_groups by simp
  from decoy_count_invariant [OF lp example_per_formula_groups k run] a grp
  have "length (filter (\<lambda>r. \<not> is_target r
        \<and> mf r = mf (hd [example_row ''H2O'' ''+He'', example_row ''H2O'' ''+Li''])
        \<and> flag ''+H'' r) (example_out ''+He'')) = nat 1"
    by blast
  then have "length (filter (\<lambda>r. \<not> is_target r \<and> mf r = ''H2O'' \<and> flag ''+H'' r)
                 (example_out ''+He'')) = nat 1"
    by (simp add: example_row_def)
  with lp example_per_formula_groups run show ?thesis by blast
qed

subsection \<open>The seed\<close>

text \<open>
  C4, as the claim has it, fails for the seed \<open>0\<close>: it is not null, but \<open>if random_seed\<close>
  takes it for false, the generator is not seeded, and the second of two calls in a row
  continues where the first left the generator and selects another decoy.
\<close>

theorem same_seed_counterexample:
  "load_fdr_subsample example_rng example_storage [0, 1, 1, 0] example_instr 1 None
       [''+H''] [''+He'', ''+Li''] 1 (Some 0)
     = Inr (example_out ''+He'', example_cached, [1, 0])
   \<and> load_fdr_subsample example_rng example_cached [1, 0] example_instr 1 None
       [''+H''] [''+He'', ''+Li''] 1 (Some 0)
     = Inr (example_out ''+Li'', example_cached, [])
   \<and> example_out ''+He'' \<noteq> example_out ''+Li''"
  by (simp add: load_fdr_subsample_def example_load_patterns example_load_patterns_cached
      example_fdr_He example_fdr_Li)
    (simp add: example_out_def)

text \<open>
  C4, amended. With a seed that is neither null nor \<open>0\<close>, a call that returns a table
  returns the same table from any state of the generator, and the next call with the
  same arguments and seed returns this table again.
\<close>

theorem same_seed_same_table:
  assumes "s \<noteq> 0"
    and "load_fdr_subsample gen st g instr charge db_id target_adducts decoy_adducts
           decoys_per_target (Some s) = Inr (out, st1, g1)"
  shows "load_fdr_subsample gen st g' instr charge db_id target_adducts decoy_adducts
           decoys_per_target (Some s) = Inr (out, st1, g1)
     \<and> (\<exists>st2. load_fdr_subsample gen st1 g' instr charge db_id target_adducts decoy_adducts
           decoys_per_target (Some s) = Inr (out, st2, g1))"
proof -
  from assms obtain g0 where seed: "np_random_seed gen s = Inr g0"
    by (auto simp: load_fdr_subsample_def split: sum.splits)
  from assms seed obtain df where
    lp: "load_patterns st instr charge db_id (target_adducts @ decoy_adducts) = Inr (df, st1)"
    and sub: "fdr_subsample gen df target_adducts decoys_per_target g0 = Inr (out, g1)"
    by (auto simp: load_fdr_subsample_def split: sum.splits)
  from load_patterns_twice [OF lp] obtain st2 where
    lp2: "load_patterns st1 instr charge db_id (target_adducts @ decoy_adducts) = Inr (df, st2)"
    by blast
  from assms(1) seed lp lp2 sub show ?thesis
    by (simp add: load_fdr_subsample_def)
qed

theorem same_seed_same_table_witness:
  "(42::int) \<noteq> 0
   \<and> load_fdr_subsample example_rng example_storage [0, 1, 1, 0] example_instr 1 None
       [''+H''] [''+He'', ''+Li''] 1 (Some 42)
     = Inr (example_out ''+Li'', example_cached, [1])
   \<and> load_fdr_subsample example_rng example_storage [7, 8, 9] example_instr 1 None
       [''+H''] [''+He'', ''+Li''] 1 (Some 42)
     = Inr (example_out ''+Li'', example_cached, [1])
   \<and> (\<exists>st2. load_fdr_subsample example_rng example_cached [7, 8, 9] example_instr 1 None
       [''+H''] [''+He'', ''+Li''] 1 (Some 42)
     = Inr (example_out ''+Li'', st2, [1]))"
proof -
  have run: "load_fdr_subsample example_rng example_storage [0, 1, 1, 0] example_instr 1 None
       [''+H''] [''+He'', ''+Li''] 1 (Some 42)
     = Inr (example_out ''+Li'', example_cached, [1])"
    by (simp add: load_fdr_subsample_def np_random_seed_def example_load_patterns
        example_seed example_fdr_seeded)
  have nz: "(42::int) \<noteq> 0" by simp
  from same_seed_same_table [OF nz run, of "[7, 8, 9]"] run show ?thesis by simp
qed

end
